theory Spec2Isabelle
  imports Main "HOL-Library.Sublist" "HOL-Library.AList" "HOL-Library.Word"
begin

section \<open>JavaScript values, results and strings\<close>

text \<open>
  The extension and the MCP server exchange JSON documents through three files of a channel
  directory. A parsed document is a \<open>jsval\<close>; \<open>JUndefined\<close> is what reading a
  missing property gives. Numbers are restricted to integers: the code only handles ids,
  timestamps and lengths.
\<close>

datatype jsval =
    JUndefined
  | JNull
  | JBool bool
  | JNum int
  | JStr string
  | JArr "jsval list"
  | JObj "(string \<times> jsval) list"

text \<open>
  A JavaScript computation returns, throws, or leaves what the model covers:
  \<open>OutsideTypes\<close> marks a payload that violates the type the TypeScript source declares
  for it (\<open>feedback: string\<close>, \<open>images: string[]\<close>), or a number beyond the safe integers
  where its digits are needed. It is not an exception, no \<open>catch\<close> of the source sees it,
  and the model says nothing about what the code does from there.
\<close>

datatype js_error = SyntaxError | TypeError | FsError string

datatype 'a result = Return 'a | Throw js_error | OutsideTypes

text \<open>Sequencing of computations that may throw, and \<open>try { ... } catch { ... }\<close>.\<close>

fun rbind :: "'a result \<Rightarrow> ('a \<Rightarrow> 'b result) \<Rightarrow> 'b result" where
  "rbind (Return x) f = f x"
| "rbind (Throw e) f = Throw e"
| "rbind OutsideTypes f = OutsideTypes"

fun try_catch :: "'a result \<Rightarrow> (js_error \<Rightarrow> 'a result) \<Rightarrow> 'a result" where
  "try_catch (Throw e) h = h e"
| "try_catch r h = r"

text \<open>Property access \<open>v.k\<close> on a value that is neither \<open>null\<close> nor \<open>undefined\<close>.\<close>

definition get_prop :: "jsval \<Rightarrow> string \<Rightarrow> jsval" where
  "get_prop v k =
     (case v of
        JObj kvs \<Rightarrow> (case map_of kvs k of Some x \<Rightarrow> x | None \<Rightarrow> JUndefined)
      | _ \<Rightarrow> JUndefined)"

fun nullish :: "jsval \<Rightarrow> bool" where
  "nullish JUndefined = True"
| "nullish JNull = True"
| "nullish _ = False"

fun truthy :: "jsval \<Rightarrow> bool" where
  "truthy JUndefined = False"
| "truthy JNull = False"
| "truthy (JBool b) = b"
| "truthy (JNum n) = (n \<noteq> 0)"
| "truthy (JStr s) = (s \<noteq> [])"
| "truthy (JArr _) = True"
| "truthy (JObj _) = True"

text \<open>
  \<open>a === b\<close>: primitives compare by value; two objects or arrays that come from two
  different \<open>JSON.parse\<close> calls are never the same object.
\<close>

fun strict_eq :: "jsval \<Rightarrow> jsval \<Rightarrow> bool" where
  "strict_eq JUndefined JUndefined = True"
| "strict_eq JNull JNull = True"
| "strict_eq (JBool a) (JBool b) = (a = b)"
| "strict_eq (JNum a) (JNum b) = (a = b)"
| "strict_eq (JStr a) (JStr b) = (a = b)"
| "strict_eq _ _ = False"

text \<open>Decimal digits of a natural number, as a template literal prints a length or an index.\<close>

fun show_nat :: "nat \<Rightarrow> string" where
  "show_nat n =
     (if n < 10 then [char_of (48 + n)]
      else show_nat (n div 10) @ [char_of (48 + n mod 10)])"

declare show_nat.simps [simp del]

definition show_int :: "int \<Rightarrow> string" where
  "show_int i = (if i < 0 then CHR ''-'' # show_nat (nat (- i)) else show_nat (nat i))"

text \<open>
  \<open>`${v}`\<close> and \<open>text + v\<close> convert \<open>v\<close> to a string. For a value that comes from
  \<open>JSON.parse\<close>: a number within the safe integers is printed with its decimal digits
  (beyond \<open>2^53\<close> JavaScript rounds and, from \<open>1e21\<close> on, prints an exponent: the model
  leaves those numbers out); an array is its elements joined by commas, \<open>null\<close> and
  \<open>undefined\<close> elements giving the empty string; an object is \<open>[object Object]\<close>, unless
  it has a property \<open>toString\<close> of its own, which is then not a function and makes the
  conversion throw a TypeError.
\<close>

fun to_string :: "jsval \<Rightarrow> string result"
  and join_elems :: "jsval list \<Rightarrow> string result" where
  "to_string JUndefined = Return ''undefined''"
| "to_string JNull = Return ''null''"
| "to_string (JBool b) = Return (if b then ''true'' else ''false'')"
| "to_string (JNum n) = (if \<bar>n\<bar> \<le> 9007199254740992 then Return (show_int n) else OutsideTypes)"
| "to_string (JStr s) = Return s"
| "to_string (JArr xs) = join_elems xs"
| "to_string (JObj kvs) =
     (if map_of kvs ''toString'' \<noteq> None then Throw TypeError else Return ''[object Object]'')"
| "join_elems [] = Return []"
| "join_elems (x # xs) =
     rbind (if nullish x then Return [] else to_string x) (\<lambda>a.
       if xs = [] then Return a
       else rbind (join_elems xs) (\<lambda>b. Return (a @ '','' @ b)))"

text \<open>The text of a value that has one.\<close>

definition template :: "jsval \<Rightarrow> string option" where
  "template v = (case to_string v of Return s \<Rightarrow> Some s | _ \<Rightarrow> None)"

text \<open>
  Strings are UTF-8 byte sequences. \<open>String.prototype.trim\<close> removes the ECMAScript
  white space and line terminators from both ends: the six ASCII ones and the code points
  U+00A0, U+1680, U+2000..U+200A, U+2028, U+2029, U+202F, U+205F, U+3000 and U+FEFF, listed
  here by their UTF-8 encodings.
\<close>

definition ws_seqs :: "string list" where
  "ws_seqs =
     [[CHR 0x09], [CHR 0x0A], [CHR 0x0B], [CHR 0x0C], [CHR 0x0D], [CHR 0x20],
      [CHR 0xC2, CHR 0xA0],
      [CHR 0xE1, CHR 0x9A, CHR 0x80],
      [CHR 0xE2, CHR 0x80, CHR 0x80], [CHR 0xE2, CHR 0x80, CHR 0x81],
      [CHR 0xE2, CHR 0x80, CHR 0x82], [CHR 0xE2, CHR 0x80, CHR 0x83],
      [CHR 0xE2, CHR 0x80, CHR 0x84], [CHR 0xE2, CHR 0x80, CHR 0x85],
      [CHR 0xE2, CHR 0x80, CHR 0x86], [CHR 0xE2, CHR 0x80, CHR 0x87],
      [CHR 0xE2, CHR 0x80, CHR 0x88], [CHR 0xE2, CHR 0x80, CHR 0x89],
      [CHR 0xE2, CHR 0x80, CHR 0x8A],
      [CHR 0xE2, CHR 0x80, CHR 0xA8], [CHR 0xE2, CHR 0x80, CHR 0xA9],
      [CHR 0xE2, CHR 0x80, CHR 0xAF],
      [CHR 0xE2, CHR 0x81, CHR 0x9F],
      [CHR 0xE3, CHR 0x80, CHR 0x80],
      [CHR 0xEF, CHR 0xBB, CHR 0xBF]]"

text \<open>Length of the white-space code point that starts \<open>s\<close>; 0 when none does.\<close>

definition ws_len :: "string list \<Rightarrow> string \<Rightarrow> nat" where
  "ws_len seqs s = (case List.find (\<lambda>p. prefix p s) seqs of Some p \<Rightarrow> length p | None \<Rightarrow> 0)"

function trim_start_with :: "string list \<Rightarrow> string \<Rightarrow> string" where
  "trim_start_with seqs s =
     (if ws_len seqs s = 0 then s else trim_start_with seqs (drop (ws_len seqs s) s))"
  by pat_completeness auto
termination
proof (relation "measure (\<lambda>(seqs, s). length s)")
  fix seqs :: "string list" and s :: string
  assume "ws_len seqs s \<noteq> 0"
  then obtain p where "prefix p s" "length p \<noteq> 0"
    by (auto simp: ws_len_def find_Some_iff split: option.splits)
  then have "s \<noteq> []" by auto
  with \<open>ws_len seqs s \<noteq> 0\<close>
  show "((seqs, drop (ws_len seqs s) s), (seqs, s)) \<in> measure (\<lambda>(seqs, s). length s)"
    by simp
qed simp

declare trim_start_with.simps [simp del]

definition trim :: "string \<Rightarrow> string" where
  "trim s = rev (trim_start_with (map rev ws_seqs) (rev (trim_start_with ws_seqs s)))"

text \<open>\<open>s.includes(sub)\<close> and \<open>s.split(sep)\<close> for a non-empty separator.\<close>

fun str_includes :: "string \<Rightarrow> string \<Rightarrow> bool" where
  "str_includes [] sub = (sub = [])"
| "str_includes (c # cs) sub = (prefix sub (c # cs) \<or> str_includes cs sub)"

function split_go :: "string \<Rightarrow> string \<Rightarrow> string \<Rightarrow> string list" where
  "split_go sep cur [] = [cur]"
| "split_go sep cur (c # cs) =
     (if sep \<noteq> [] \<and> prefix sep (c # cs)
      then cur # split_go sep [] (drop (length sep) (c # cs))
      else split_go sep (cur @ [c]) cs)"
  by pat_completeness auto
termination
  by (relation "measure (\<lambda>(sep, cur, s). length s)") auto

definition str_split :: "string \<Rightarrow> string \<Rightarrow> string list" where
  "str_split s sep = split_go sep [] s"

section \<open>Library functions the code calls\<close>

text \<open>
  \<open>JSON.parse\<close> (\<open>None\<close>: it throws a SyntaxError), \<open>JSON.stringify\<close> and
  \<open>Buffer.from(data, 'base64')\<close> are functions of the runtime, taken as parameters.
  \<open>feedback_dir\<close> is the module constant \<open>FEEDBACK_DIR\<close> of the MCP server, computed
  once at start from the command line.
\<close>

record js_env =
  JSON_parse :: "string \<Rightarrow> jsval option"
  JSON_stringify :: "jsval \<Rightarrow> string"
  Buffer_from_base64 :: "string \<Rightarrow> string"
  feedback_dir :: string

definition parse :: "js_env \<Rightarrow> string \<Rightarrow> jsval result" where
  "parse env txt = (case JSON_parse env txt of None \<Rightarrow> Throw SyntaxError | Some v \<Rightarrow> Return v)"

text \<open>
  A concrete runtime for the closed examples: it agrees with \<open>JSON.parse\<close> and
  \<open>JSON.stringify\<close> on the documents of the table and rejects every other text.
\<close>

definition table_env :: "(string \<times> jsval) list \<Rightarrow> js_env" where
  "table_env tbl =
     \<lparr> JSON_parse = map_of tbl,
       JSON_stringify =
         (\<lambda>v. case List.find (\<lambda>(s, v'). v' = v) tbl of Some (s, _) \<Rightarrow> s | None \<Rightarrow> ''null''),
       Buffer_from_base64 = (\<lambda>d. d),
       feedback_dir = ''/tmp/.autotester/0011223344556677'' \<rparr>"

section \<open>The channel directory\<close>

text \<open>
  The channel directory holds three control files and an \<open>images\<close> folder. A file is
  its text, \<open>None\<close> when it does not exist; the directory itself may not exist. Operations
  fail where the state says so (a missing file or directory); besides, the operating system
  may refuse to remove the directory (\<open>rm_denied\<close>: a file in it is held open, or a
  permission is missing), and a refused removal is taken to leave the directory as it was.
  An image file whose name holds a NUL byte or is longer than 255 bytes cannot be written.
  What else the operating system can refuse is the subject of the section on the calls
  outside every \<open>try\<close>.
\<close>

record channel =
  feedback_file :: "string option"
  request_file :: "string option"
  config_file :: "string option"
  images_dir :: "(string \<times> string) list option"

record filesys =
  channel_dir :: "channel option"
  rm_denied :: bool

datatype ctl = FEEDBACK_FILE | REQUEST_FILE | CONFIG_FILE

definition empty_channel :: channel where
  "empty_channel =
     \<lparr> feedback_file = None, request_file = None, config_file = None, images_dir = None \<rparr>"

fun file_of :: "ctl \<Rightarrow> channel \<Rightarrow> string option" where
  "file_of FEEDBACK_FILE ch = feedback_file ch"
| "file_of REQUEST_FILE ch = request_file ch"
| "file_of CONFIG_FILE ch = config_file ch"

fun set_file :: "ctl \<Rightarrow> string option \<Rightarrow> channel \<Rightarrow> channel" where
  "set_file FEEDBACK_FILE x ch = ch\<lparr>feedback_file := x\<rparr>"
| "set_file REQUEST_FILE x ch = ch\<lparr>request_file := x\<rparr>"
| "set_file CONFIG_FILE x ch = ch\<lparr>config_file := x\<rparr>"

definition read_file :: "filesys \<Rightarrow> ctl \<Rightarrow> string option" where
  "read_file fs f = (case channel_dir fs of None \<Rightarrow> None | Some ch \<Rightarrow> file_of f ch)"

definition existsSync :: "filesys \<Rightarrow> ctl \<Rightarrow> bool" where
  "existsSync fs f = (read_file fs f \<noteq> None)"

definition existsSync_dir :: "filesys \<Rightarrow> bool" where
  "existsSync_dir fs = (channel_dir fs \<noteq> None)"

definition readFileSync :: "filesys \<Rightarrow> ctl \<Rightarrow> string result" where
  "readFileSync fs f =
     (case read_file fs f of None \<Rightarrow> Throw (FsError ''ENOENT'') | Some txt \<Rightarrow> Return txt)"

definition writeFileSync :: "ctl \<Rightarrow> string \<Rightarrow> filesys \<Rightarrow> filesys result" where
  "writeFileSync f txt fs =
     (case channel_dir fs of
        None \<Rightarrow> Throw (FsError ''ENOENT'')
      | Some ch \<Rightarrow> Return (fs\<lparr>channel_dir := Some (set_file f (Some txt) ch)\<rparr>))"

definition unlinkSync :: "ctl \<Rightarrow> filesys \<Rightarrow> filesys result" where
  "unlinkSync f fs =
     (case channel_dir fs of
        None \<Rightarrow> Throw (FsError ''ENOENT'')
      | Some ch \<Rightarrow>
          (if file_of f ch = None then Throw (FsError ''ENOENT'')
           else Return (fs\<lparr>channel_dir := Some (set_file f None ch)\<rparr>)))"

text \<open>\<open>fs.mkdirSync(FEEDBACK_DIR, { recursive: true })\<close>: no error when it exists.\<close>

definition mkdirSync :: "filesys \<Rightarrow> filesys" where
  "mkdirSync fs =
     (case channel_dir fs of None \<Rightarrow> fs\<lparr>channel_dir := Some empty_channel\<rparr> | Some _ \<Rightarrow> fs)"

text \<open>\<open>fs.rmSync(FEEDBACK_DIR, { recursive: true, force: true })\<close>: a missing directory is
  ignored.\<close>

definition rmSync :: "filesys \<Rightarrow> filesys result" where
  "rmSync fs = (if rm_denied fs then Throw (FsError ''EPERM'') else Return (fs\<lparr>channel_dir := None\<rparr>))"

definition ensureDir :: "filesys \<Rightarrow> filesys" where
  "ensureDir fs = (if \<not> existsSync_dir fs then mkdirSync fs else fs)"

section \<open>The extension: Responder, Poller, Config Mirror, shutdown\<close>

text \<open>The settings of the \<open>autotester\<close> namespace; \<open>None\<close> when the user has set none.\<close>

record vscode_config =
  cfg_toolName :: "string option"
  cfg_toolDescription :: "string option"
  cfg_footer :: "string option"

definition config_get :: "string option \<Rightarrow> string \<Rightarrow> string" where
  "config_get x dflt = (case x of None \<Rightarrow> dflt | Some v \<Rightarrow> v)"

definition default_toolName :: string where
  "default_toolName = ''run_auto_tester''"

definition default_toolDescription :: string where
  "default_toolDescription =
     ''Run after implementing features/fixes. Opens feedback panel with your description.''"

text \<open>The default footer; its warning sign (U+26A0 U+FE0F) is six bytes of UTF-8.\<close>

definition default_footer :: string where
  "default_footer =
     [CHR 0x0A, CHR 0x0A] @ ''---'' @ [CHR 0x0A, CHR 0xE2, CHR 0x9A, CHR 0xA0, CHR 0xEF, CHR 0xB8, CHR 0x8F]
     @ '' IMPORTANT: Always reply back via the autotester MCP tool after implementing changes. Continue the feedback loop until you receive a signal that all work is done.''"

definition config_json :: "string \<Rightarrow> string \<Rightarrow> string \<Rightarrow> jsval" where
  "config_json name descr footer =
     JObj [(''toolName'', JStr name), (''toolDescription'', JStr descr), (''footer'', JStr footer)]"

definition writeConfig :: "js_env \<Rightarrow> vscode_config \<Rightarrow> filesys \<Rightarrow> filesys result" where
  "writeConfig env config fs =
     writeFileSync CONFIG_FILE
       (JSON_stringify env
          (config_json (config_get (cfg_toolName config) default_toolName)
             (config_get (cfg_toolDescription config) default_toolDescription)
             (config_get (cfg_footer config) default_footer)))
       (ensureDir fs)"

definition feedback_json :: "string \<Rightarrow> string list \<Rightarrow> int \<Rightarrow> jsval" where
  "feedback_json feedback images t =
     JObj [(''feedback'', JStr feedback), (''images'', JArr (map JStr images)), (''timestamp'', JNum t)]"

text \<open>\<open>writeFeedback(feedback, images?)\<close> at time \<open>t\<close> (\<open>Date.now()\<close>).\<close>

definition writeFeedback :: "js_env \<Rightarrow> string \<Rightarrow> string list option \<Rightarrow> int \<Rightarrow> filesys \<Rightarrow> filesys result" where
  "writeFeedback env feedback images t fs =
     writeFileSync FEEDBACK_FILE
       (JSON_stringify env
          (feedback_json feedback (case images of None \<Rightarrow> [] | Some is \<Rightarrow> is) t))
       (ensureDir fs)"

text \<open>\<open>checkForRequest\<close>: \<open>JNull\<close> is its \<open>null\<close>, "no message".\<close>

definition checkForRequest :: "js_env \<Rightarrow> filesys \<Rightarrow> jsval \<times> filesys" where
  "checkForRequest env fs =
     (case
        (if existsSync fs REQUEST_FILE then
           rbind (readFileSync fs REQUEST_FILE) (\<lambda>txt.
           rbind (parse env txt) (\<lambda>data.
           rbind (unlinkSync REQUEST_FILE fs) (\<lambda>fs'.
           Return (data, fs'))))
         else Return (JNull, fs))
      of Return r \<Rightarrow> r
       | _ \<Rightarrow> (JNull, fs))"

text \<open>\<open>deactivate\<close> of \<open>src/src\<close>, and of the \<open>copilot-autotester\<close> copy (prefix \<open>ca_\<close>), whose
  body is empty.\<close>

definition deactivate :: "filesys \<Rightarrow> filesys result" where
  "deactivate fs =
     try_catch (if existsSync_dir fs then rmSync fs else Return fs) (\<lambda>e. Return fs)"

definition ca_deactivate :: "filesys \<Rightarrow> filesys result" where
  "ca_deactivate fs = Return fs"

subsection \<open>The webview provider\<close>

datatype author = User | Agent

record ChatMessage =
  msg_text :: string
  msg_type :: author
  msg_images :: "string list option"

datatype webview_msg =
    Submitted
  | ShowPrompt string
  | Focus

text \<open>
  The provider with what it mutates: the messages posted to the webview (none while no
  view is resolved), the pending promise of \<open>waitForFeedback\<close> and the values it was
  resolved with, the tracked state, the feedback store, and, behind the
  \<open>onFeedbackSubmit\<close> callback (\<open>writeFeedback\<close> when set), the file system and the clock.
\<close>

record provider =
  view :: bool
  posted :: "webview_msg list"
  feedbackResolve :: bool
  resolved :: "string list"
  messages :: "ChatMessage list"
  inputEnabled :: bool
  pendingPrompt :: "string option"
  entries :: "string list"
  onFeedbackSubmit :: bool
  disk :: filesys
  date_now :: int

definition postMessage :: "webview_msg \<Rightarrow> provider \<Rightarrow> provider" where
  "postMessage m st = (if view st then st\<lparr>posted := posted st @ [m]\<rparr> else st)"

definition submit_tail :: "js_env \<Rightarrow> string \<Rightarrow> string list option \<Rightarrow> provider \<Rightarrow> provider result" where
  "submit_tail env text images st =
     (let st1 = st\<lparr>entries := entries st @ [text]\<rparr> in
      rbind
        (if onFeedbackSubmit st1
         then rbind (writeFeedback env text images (date_now st1) (disk st1))
                (\<lambda>fs. Return (st1\<lparr>disk := fs\<rparr>))
         else Return st1)
        (\<lambda>st2.
           let st3 = (if feedbackResolve st2
                      then st2\<lparr>resolved := resolved st2 @ [text], feedbackResolve := False\<rparr>
                      else st2)
           in Return (postMessage Submitted st3)))"

definition handleFeedbackSubmit :: "js_env \<Rightarrow> string \<Rightarrow> string list option \<Rightarrow> provider \<Rightarrow> provider result" where
  "handleFeedbackSubmit env text images st =
     (if trim text = [] \<and> (images = None \<or> images = Some []) then Return st
      else
        submit_tail env text images
          (st\<lparr>messages := messages st @
                 [\<lparr>msg_text = (if text = [] then ''(image)'' else text), msg_type = User,
                   msg_images = images\<rparr>],
              inputEnabled := False,
              pendingPrompt := None\<rparr>))"

definition ca_handleFeedbackSubmit :: "js_env \<Rightarrow> string \<Rightarrow> string list option \<Rightarrow> provider \<Rightarrow> provider result" where
  "ca_handleFeedbackSubmit env text images st =
     (if trim text = [] \<and> (images = None \<or> images = Some []) then Return st
      else submit_tail env text images st)"

section \<open>Paths\<close>

text \<open>
  \<open>path.join\<close> of Node for POSIX paths: the segments that are not empty are joined by
  \<open>/\<close> and the result is normalised. \<open>normalizeString\<close> goes through the pieces between
  slashes: an empty piece and \<open>.\<close> are dropped, \<open>..\<close> removes the piece before it unless
  there is none or it is \<open>..\<close> itself (then \<open>..\<close> is kept in a relative path and dropped
  in an absolute one), and every other piece is kept.
\<close>

definition norm_step :: "bool \<Rightarrow> string list \<Rightarrow> string \<Rightarrow> string list" where
  "norm_step allowAboveRoot res seg =
     (if seg = [] \<or> seg = ''.'' then res
      else if seg = ''..'' then
        (if res \<noteq> [] \<and> last res \<noteq> ''..'' then butlast res
         else if allowAboveRoot then res @ [''..''] else res)
      else res @ [seg])"

fun join_with :: "string \<Rightarrow> string list \<Rightarrow> string" where
  "join_with sep [] = []"
| "join_with sep [x] = x"
| "join_with sep (x # y # ys) = x @ sep @ join_with sep (y # ys)"

definition normalizeString :: "string \<Rightarrow> bool \<Rightarrow> string" where
  "normalizeString path allowAboveRoot =
     join_with ''/'' (foldl (norm_step allowAboveRoot) [] (str_split path ''/''))"

definition path_normalize :: "string \<Rightarrow> string" where
  "path_normalize path =
     (if path = [] then ''.''
      else
        (let isAbsolute = (hd path = CHR ''/'');
             trailingSeparator = (last path = CHR ''/'');
             p = normalizeString path (\<not> isAbsolute)
         in if p = [] then (if isAbsolute then ''/'' else if trailingSeparator then ''./'' else ''.'')
            else (if isAbsolute then ''/'' else []) @ p @ (if trailingSeparator then ''/'' else [])))"

definition path_join :: "string list \<Rightarrow> string" where
  "path_join args =
     (case filter (\<lambda>arg. arg \<noteq> []) args of
        [] \<Rightarrow> ''.''
      | segs \<Rightarrow> path_normalize (join_with ''/'' segs))"


section \<open>The MCP server: Config, Waiter\<close>

record Config =
  toolName :: jsval
  toolDescription :: jsval
  footer :: jsval

definition DEFAULT_CONFIG :: Config where
  "DEFAULT_CONFIG =
     \<lparr> toolName = JStr default_toolName,
       toolDescription = JStr default_toolDescription,
       footer = JStr default_footer \<rparr>"

text \<open>
  One field of \<open>{ ...DEFAULT_CONFIG, ...parsed }\<close>: an own property of the parsed object
  replaces the default. Spreading \<open>null\<close>, a number or a boolean adds nothing, and a string
  or an array adds index keys only.
\<close>

definition spread_field :: "jsval \<Rightarrow> string \<Rightarrow> jsval \<Rightarrow> jsval" where
  "spread_field parsed k dflt =
     (case parsed of
        JObj kvs \<Rightarrow> (case map_of kvs k of Some x \<Rightarrow> x | None \<Rightarrow> dflt)
      | _ \<Rightarrow> dflt)"

definition loadConfig :: "js_env \<Rightarrow> filesys \<Rightarrow> Config" where
  "loadConfig env fs =
     (case
        (if existsSync fs CONFIG_FILE then
           rbind (readFileSync fs CONFIG_FILE) (\<lambda>txt.
           rbind (parse env txt) (\<lambda>parsed.
           Return
             \<lparr> toolName = spread_field parsed ''toolName'' (toolName DEFAULT_CONFIG),
               toolDescription = spread_field parsed ''toolDescription'' (toolDescription DEFAULT_CONFIG),
               footer = spread_field parsed ''footer'' (footer DEFAULT_CONFIG) \<rparr>))
         else Return DEFAULT_CONFIG)
      of Return c \<Rightarrow> c
       | _ \<Rightarrow> DEFAULT_CONFIG)"

datatype ContentBlock = TextBlock string | ImageBlock string string

text \<open>
  \<open>parseDataUri\<close>: the pair (data, mimeType). \<open>split(';base64,', 2)\<close> keeps the first two
  pieces; \<open>data\<close> is \<open>None\<close> (\<open>undefined\<close>) if there were only one.
\<close>

definition parseDataUri :: "string \<Rightarrow> string option \<times> string" where
  "parseDataUri uri =
     (if prefix ''data:'' uri \<and> str_includes uri '';base64,'' then
        (case str_split (drop 5 uri) '';base64,'' of
           mime # data # _ \<Rightarrow> (Some data, mime)
         | [mime] \<Rightarrow> (None, mime)
         | [] \<Rightarrow> (None, []))
      else (Some uri, ''image/png''))"

text \<open>\<open>mimeType.split('/')[1] || 'png'\<close>\<close>

definition image_ext :: "string \<Rightarrow> string" where
  "image_ext mimeType =
     (case str_split mimeType ''/'' of
        _ # e # _ \<Rightarrow> (if e = [] then ''png'' else e)
      | _ \<Rightarrow> ''png'')"

definition image_name :: "nat \<Rightarrow> string \<Rightarrow> string" where
  "image_name i ext = ''feedback_image_'' @ show_nat (i + 1) @ ''.'' @ ext"

text \<open>\<open>path.join(IMAGES_DIR, name)\<close>, where \<open>IMAGES_DIR\<close> is \<open>path.join(FEEDBACK_DIR, 'images')\<close>.\<close>

definition image_path :: "js_env \<Rightarrow> string \<Rightarrow> string" where
  "image_path env name = path_join [path_join [feedback_dir env, ''images''], name]"

text \<open>\<open>fs.existsSync(IMAGES_DIR) || fs.mkdirSync(IMAGES_DIR, { recursive: true })\<close>\<close>

definition ensure_images_dir :: "filesys \<Rightarrow> filesys" where
  "ensure_images_dir fs =
     (case channel_dir fs of
        None \<Rightarrow> fs\<lparr>channel_dir := Some (empty_channel\<lparr>images_dir := Some []\<rparr>)\<rparr>
      | Some ch \<Rightarrow>
          (case images_dir ch of
             None \<Rightarrow> fs\<lparr>channel_dir := Some (ch\<lparr>images_dir := Some []\<rparr>)\<rparr>
           | Some _ \<Rightarrow> fs))"

text \<open>
  \<open>fs.writeFileSync(imgPath, ...)\<close> for a file of the \<open>images\<close> folder: Node rejects a path
  with a NUL byte, and the file system a name longer than 255 bytes.
\<close>

definition write_image :: "string \<Rightarrow> string \<Rightarrow> filesys \<Rightarrow> filesys result" where
  "write_image name bytes fs =
     (if CHR 0x00 \<in> set name then Throw TypeError
      else if 255 < length name then Throw (FsError ''ENAMETOOLONG'')
      else
        (case channel_dir fs of
           None \<Rightarrow> Throw (FsError ''ENOENT'')
         | Some ch \<Rightarrow>
             (case images_dir ch of
                None \<Rightarrow> Throw (FsError ''ENOENT'')
              | Some imgs \<Rightarrow>
                  Return (fs\<lparr>channel_dir := Some (ch\<lparr>images_dir := Some (AList.update name bytes imgs)\<rparr>)\<rparr>))))"

text \<open>
  The body of \<open>images.forEach((img, i) => ...)\<close> from index \<open>i\<close> on, threading the text,
  the blocks and the file system. An image whose file cannot be written is skipped.
\<close>

fun save_images :: "js_env \<Rightarrow> nat \<Rightarrow> string list \<Rightarrow> string \<times> ContentBlock list \<times> filesys
    \<Rightarrow> string \<times> ContentBlock list \<times> filesys" where
  "save_images env i [] acc = acc"
| "save_images env i (img # rest) (text, blocks, fs) =
     (let (data, mimeType) = parseDataUri img;
          name = image_name i (image_ext mimeType)
      in case
           rbind (case data of None \<Rightarrow> Throw TypeError | Some d \<Rightarrow> Return d) (\<lambda>d.
           rbind (write_image name (Buffer_from_base64 env d) fs) (\<lambda>fs'.
           Return
             (text @ [CHR 0x0A] @ ''- Image '' @ show_nat (i + 1) @ '': '' @ image_path env name,
              blocks @ [ImageBlock d mimeType],
              fs')))
         of Return acc' \<Rightarrow> save_images env (i + 1) rest acc'
          | _ \<Rightarrow> save_images env (i + 1) rest (text, blocks, fs))"

text \<open>
  \<open>const { feedback = '', images = [] } = JSON.parse(...)\<close>, read at the declared types:
  \<open>feedback\<close> a string, \<open>images\<close> an array of strings, each replaced by its default when
  absent.
\<close>

fun as_strings :: "jsval list \<Rightarrow> string list option" where
  "as_strings [] = Some []"
| "as_strings (JStr s # vs) = (case as_strings vs of None \<Rightarrow> None | Some ss \<Rightarrow> Some (s # ss))"
| "as_strings (_ # vs) = None"

definition decode_feedback :: "jsval \<Rightarrow> (string \<times> string list) result" where
  "decode_feedback v =
     (if nullish v then Throw TypeError
      else
        (case get_prop v ''feedback'' of
           JUndefined \<Rightarrow>
             (case get_prop v ''images'' of
                JUndefined \<Rightarrow> Return ([], [])
              | JArr xs \<Rightarrow> (case as_strings xs of None \<Rightarrow> OutsideTypes | Some is \<Rightarrow> Return ([], is))
              | _ \<Rightarrow> OutsideTypes)
         | JStr feedback \<Rightarrow>
             (case get_prop v ''images'' of
                JUndefined \<Rightarrow> Return (feedback, [])
              | JArr xs \<Rightarrow> (case as_strings xs of None \<Rightarrow> OutsideTypes | Some is \<Rightarrow> Return (feedback, is))
              | _ \<Rightarrow> OutsideTypes)
         | _ \<Rightarrow> OutsideTypes))"

text \<open>
  What follows \<open>fs.unlinkSync(FEEDBACK_FILE)\<close> once a message is taken: the image files and
  references, then the footer of the configuration read at that moment, and the file
  system as these steps leave it, also when \<open>text + config.footer\<close> throws.
\<close>

definition build_reply :: "js_env \<Rightarrow> string \<Rightarrow> string list \<Rightarrow> filesys
    \<Rightarrow> ContentBlock list result \<times> filesys" where
  "build_reply env feedback images fs1 =
     (let (text, blocks, fs2) =
            (if images \<noteq> [] then
               save_images env 0 images
                 (feedback @ [CHR 0x0A, CHR 0x0A] @ ''[User attached '' @ show_nat (length images) @ '' image(s)]'',
                  [], ensure_images_dir fs1)
             else (feedback, [], fs1));
          config = loadConfig env fs2
      in (rbind (to_string (footer config)) (\<lambda>ft. Return (TextBlock (text @ ft) # blocks)), fs2))"

text \<open>
  One turn of the \<open>while\<close> loop of \<open>waitForFeedback\<close> up to its \<open>await\<close>:
  \<open>Return (Some blocks)\<close> when it returns the reply, \<open>Return None\<close> when it goes on to sleep
  (no file, an empty message, or an exception caught by \<open>catch { /* retry */ }\<close>).
\<close>

definition poll :: "js_env \<Rightarrow> filesys \<Rightarrow> ContentBlock list option result \<times> filesys" where
  "poll env fs =
     (if existsSync fs FEEDBACK_FILE then
        (case
           rbind (readFileSync fs FEEDBACK_FILE) (\<lambda>txt.
           rbind (parse env txt) decode_feedback)
         of Return (feedback, images) \<Rightarrow>
              if feedback \<noteq> [] \<or> images \<noteq> [] then
                (case unlinkSync FEEDBACK_FILE fs of
                   Return fs1 \<Rightarrow>
                     (case build_reply env feedback images fs1 of
                        (Return blocks, fs2) \<Rightarrow> (Return (Some blocks), fs2)
                      | (Throw e, fs2) \<Rightarrow> (Return None, fs2)
                      | (OutsideTypes, fs2) \<Rightarrow> (OutsideTypes, fs2))
                 | Throw e \<Rightarrow> (Return None, fs)
                 | OutsideTypes \<Rightarrow> (OutsideTypes, fs))
              else (Return None, fs)
          | Throw e \<Rightarrow> (Return None, fs)
          | OutsideTypes \<Rightarrow> (OutsideTypes, fs))
      else (Return None, fs))"

section \<open>Time and the other process\<close>

text \<open>
  While the server sleeps, the extension (or anything else with access to the directory)
  acts on the files. An event is one such action with the time at which it happens.
\<close>

datatype event =
    EvWriteFeedback string "string list option"
  | EvCheckForRequest
  | EvWriteConfig vscode_config
  | EvDeactivate
  | EvPut ctl "string option"

definition returned_or :: "'a \<Rightarrow> 'a result \<Rightarrow> 'a" where
  "returned_or dflt r = (case r of Return x \<Rightarrow> x | _ \<Rightarrow> dflt)"

fun apply_event :: "js_env \<Rightarrow> int \<times> event \<Rightarrow> filesys \<Rightarrow> filesys" where
  "apply_event env (t, EvWriteFeedback feedback images) fs =
     returned_or fs (writeFeedback env feedback images t fs)"
| "apply_event env (t, EvCheckForRequest) fs = snd (checkForRequest env fs)"
| "apply_event env (t, EvWriteConfig config) fs = returned_or fs (writeConfig env config fs)"
| "apply_event env (t, EvDeactivate) fs = returned_or fs (deactivate fs)"
| "apply_event env (t, EvPut f x) fs =
     (case channel_dir (ensureDir fs) of
        None \<Rightarrow> fs
      | Some ch \<Rightarrow> (ensureDir fs)\<lparr>channel_dir := Some (set_file f x ch)\<rparr>)"

fun touches_feedback :: "event \<Rightarrow> bool" where
  "touches_feedback (EvWriteFeedback _ _) = True"
| "touches_feedback (EvPut FEEDBACK_FILE _) = True"
| "touches_feedback _ = False"

record world =
  files :: filesys
  clock :: int
  pending :: "(int \<times> event) list"

text \<open>
  \<open>await new Promise(r => setTimeout(r, d))\<close>: the clock advances by \<open>d\<close> milliseconds and
  the events that happen before the wake-up take effect, in their order.
\<close>

definition sleep :: "js_env \<Rightarrow> int \<Rightarrow> world \<Rightarrow> world" where
  "sleep env d w =
     \<lparr> files = fold (apply_event env) (filter (\<lambda>(t, e). t < clock w + d) (pending w)) (files w),
       clock = clock w + d,
       pending = filter (\<lambda>(t, e). \<not> t < clock w + d) (pending w) \<rparr>"

definition timeout_reply :: "ContentBlock list" where
  "timeout_reply = [TextBlock ''[Timeout: No feedback received]'']"

function waitLoop :: "js_env \<Rightarrow> int \<Rightarrow> int \<Rightarrow> world \<Rightarrow> ContentBlock list result \<times> world" where
  "waitLoop env start timeout w =
     (if clock w - start < timeout then
        (case poll env (files w) of
           (Return (Some blocks), fs') \<Rightarrow> (Return blocks, w\<lparr>files := fs'\<rparr>)
         | (Return None, fs') \<Rightarrow> waitLoop env start timeout (sleep env 500 (w\<lparr>files := fs'\<rparr>))
         | (Throw e, fs') \<Rightarrow> (Throw e, w\<lparr>files := fs'\<rparr>)
         | (OutsideTypes, fs') \<Rightarrow> (OutsideTypes, w\<lparr>files := fs'\<rparr>))
      else (Return timeout_reply, w))"
  by pat_completeness auto
termination
  by (relation "measure (\<lambda>(env, start, timeout, w). nat (start + timeout - clock w))")
    (auto simp: sleep_def)

declare waitLoop.simps [simp del]

definition waitForFeedback :: "js_env \<Rightarrow> int \<Rightarrow> world \<Rightarrow> ContentBlock list result \<times> world" where
  "waitForFeedback env timeout w =
     (let w1 = w\<lparr>files := ensureDir (files w)\<rparr> in waitLoop env (clock w1) timeout w1)"

definition request_json :: "string \<Rightarrow> int \<Rightarrow> jsval" where
  "request_json prompt t = JObj [(''prompt'', JStr prompt), (''timestamp'', JNum t)]"

definition executeTool :: "js_env \<Rightarrow> string \<Rightarrow> world \<Rightarrow> ContentBlock list result \<times> world" where
  "executeTool env prompt w =
     (case (if existsSync (files w) FEEDBACK_FILE then unlinkSync FEEDBACK_FILE (files w)
            else Return (files w)) of
        Return fs1 \<Rightarrow>
          (case writeFileSync REQUEST_FILE (JSON_stringify env (request_json prompt (clock w)))
                  (ensureDir fs1) of
             Return fs2 \<Rightarrow> waitForFeedback env 300000 (sleep env 500 (w\<lparr>files := fs2\<rparr>))
           | Throw e \<Rightarrow> (Throw e, w\<lparr>files := ensureDir fs1\<rparr>)
           | OutsideTypes \<Rightarrow> (OutsideTypes, w\<lparr>files := ensureDir fs1\<rparr>))
      | Throw e \<Rightarrow> (Throw e, w)
      | OutsideTypes \<Rightarrow> (OutsideTypes, w))"

section \<open>The calls outside every try\<close>

text \<open>
  Three file-system calls of a \<open>tools/call\<close> stand outside every \<open>try\<close>: the
  \<open>unlinkSync\<close> of a stale feedback file and the \<open>writeFileSync\<close> of the request file in
  \<open>executeTool\<close>, and the \<open>mkdirSync\<close> of \<open>ensureDir()\<close>, in \<open>executeTool\<close> and again in
  \<open>waitForFeedback\<close>. The operating system can refuse each of them for reasons the files of
  the channel directory do not show: a component of \<open>FEEDBACK_DIR\<close> is a regular file
  (ENOTDIR), a permission is missing (EACCES, EPERM), the disk is full (ENOSPC). The
  exception then leaves \<open>executeTool\<close>. \<open>Some code\<close> says that the operating system refuses
  that call with that error, \<open>None\<close> that it carries the call out as the section on the
  channel directory describes. \<open>fs.existsSync\<close> never throws. Inside the loop of
  \<open>waitForFeedback\<close> every call stands in a \<open>try\<close>, and the loop is the one above.
\<close>

record refusals =
  unlink_refused :: "string option"
  mkdir_refused :: "string option"
  write_refused :: "string option"

definition no_refusals :: refusals where
  "no_refusals = \<lparr> unlink_refused = None, mkdir_refused = None, write_refused = None \<rparr>"

definition unlinkSync_os :: "refusals \<Rightarrow> ctl \<Rightarrow> filesys \<Rightarrow> filesys result" where
  "unlinkSync_os os f fs =
     (case unlink_refused os of Some code \<Rightarrow> Throw (FsError code) | None \<Rightarrow> unlinkSync f fs)"

definition mkdirSync_os :: "refusals \<Rightarrow> filesys \<Rightarrow> filesys result" where
  "mkdirSync_os os fs =
     (case mkdir_refused os of Some code \<Rightarrow> Throw (FsError code) | None \<Rightarrow> Return (mkdirSync fs))"

definition writeFileSync_os :: "refusals \<Rightarrow> ctl \<Rightarrow> string \<Rightarrow> filesys \<Rightarrow> filesys result" where
  "writeFileSync_os os f txt fs =
     (case write_refused os of Some code \<Rightarrow> Throw (FsError code) | None \<Rightarrow> writeFileSync f txt fs)"

definition ensureDir_os :: "refusals \<Rightarrow> filesys \<Rightarrow> filesys result" where
  "ensureDir_os os fs = (if \<not> existsSync_dir fs then mkdirSync_os os fs else Return fs)"

text \<open>
  \<open>waitForFeedback\<close> and \<open>executeTool\<close> under such an operating system. A call that throws
  leaves the files as they were when it threw.
\<close>

definition waitForFeedback_os :: "refusals \<Rightarrow> js_env \<Rightarrow> int \<Rightarrow> world \<Rightarrow> ContentBlock list result \<times> world" where
  "waitForFeedback_os os env timeout w =
     (case ensureDir_os os (files w) of
        Return fs \<Rightarrow> (let w1 = w\<lparr>files := fs\<rparr> in waitLoop env (clock w1) timeout w1)
      | Throw e \<Rightarrow> (Throw e, w)
      | OutsideTypes \<Rightarrow> (OutsideTypes, w))"

definition executeTool_os :: "refusals \<Rightarrow> js_env \<Rightarrow> string \<Rightarrow> world \<Rightarrow> ContentBlock list result \<times> world" where
  "executeTool_os os env prompt w =
     (case (if existsSync (files w) FEEDBACK_FILE then unlinkSync_os os FEEDBACK_FILE (files w)
            else Return (files w)) of
        Return fs1 \<Rightarrow>
          (case ensureDir_os os fs1 of
             Return fs2 \<Rightarrow>
               (case writeFileSync_os os REQUEST_FILE
                       (JSON_stringify env (request_json prompt (clock w))) fs2 of
                  Return fs3 \<Rightarrow> waitForFeedback_os os env 300000 (sleep env 500 (w\<lparr>files := fs3\<rparr>))
                | Throw e \<Rightarrow> (Throw e, w\<lparr>files := fs2\<rparr>)
                | OutsideTypes \<Rightarrow> (OutsideTypes, w\<lparr>files := fs2\<rparr>))
           | Throw e \<Rightarrow> (Throw e, w\<lparr>files := fs1\<rparr>)
           | OutsideTypes \<Rightarrow> (OutsideTypes, w\<lparr>files := fs1\<rparr>))
      | Throw e \<Rightarrow> (Throw e, w)
      | OutsideTypes \<Rightarrow> (OutsideTypes, w))"

section \<open>The MCP server: Dispatcher\<close>

definition inputSchema :: jsval where
  "inputSchema =
     JObj [(''type'', JStr ''object''),
           (''properties'',
            JObj [(''description'',
                   JObj [(''type'', JStr ''string''), (''description'', JStr ''What was changed'')])])]"

definition getTools :: "js_env \<Rightarrow> filesys \<Rightarrow> jsval list" where
  "getTools env fs =
     (let config = loadConfig env fs
      in [JObj [(''name'', toolName config),
                (''description'', toolDescription config),
                (''inputSchema'', inputSchema)]])"

definition result_response :: "jsval \<Rightarrow> jsval \<Rightarrow> jsval" where
  "result_response rid r = JObj [(''jsonrpc'', JStr ''2.0''), (''id'', rid), (''result'', r)]"

definition error_response :: "jsval \<Rightarrow> int \<Rightarrow> string \<Rightarrow> jsval" where
  "error_response rid code message =
     JObj [(''jsonrpc'', JStr ''2.0''), (''id'', rid),
           (''error'', JObj [(''code'', JNum code), (''message'', JStr message)])]"

definition initialize_result :: jsval where
  "initialize_result =
     JObj [(''protocolVersion'', JStr ''2024-11-05''),
           (''capabilities'', JObj [(''tools'', JObj [])]),
           (''serverInfo'', JObj [(''name'', JStr ''auto-tester''), (''version'', JStr ''1.0.0'')])]"

fun block_json :: "ContentBlock \<Rightarrow> jsval" where
  "block_json (TextBlock t) = JObj [(''type'', JStr ''text''), (''text'', JStr t)]"
| "block_json (ImageBlock d m) =
     JObj [(''type'', JStr ''image''), (''data'', JStr d), (''mimeType'', JStr m)]"

text \<open>
  \<open>(args.description as string)?.trim() || 'Changes made. Please review.'\<close>: reading a
  property of \<open>null\<close> throws, and so does calling \<open>trim\<close> on a value that is not a string.
\<close>

definition description_arg :: "jsval \<Rightarrow> string result" where
  "description_arg args =
     (if nullish args then Throw TypeError
      else
        (case get_prop args ''description'' of
           JUndefined \<Rightarrow> Return ''Changes made. Please review.''
         | JNull \<Rightarrow> Return ''Changes made. Please review.''
         | JStr d \<Rightarrow> Return (if trim d = [] then ''Changes made. Please review.'' else trim d)
         | _ \<Rightarrow> Throw TypeError))"

text \<open>
  \<open>process\<close>: the response, \<open>JNull\<close> for none. The request is any parsed value; destructuring
  \<open>null\<close> throws, and so does destructuring \<open>params\<close> when a \<open>tools/call\<close> request has
  none. A call of the configured tool runs \<open>executeTool\<close> with an operating system that
  refuses none of its calls.
\<close>

definition process :: "js_env \<Rightarrow> jsval \<Rightarrow> world \<Rightarrow> jsval result \<times> world" where
  "process env req w =
     (if nullish req then (Throw TypeError, w)
      else
        (let method = get_prop req ''method'';
             rid = get_prop req ''id'';
             params = get_prop req ''params''
         in
           if strict_eq method (JStr ''initialize'') then
             (Return (result_response rid initialize_result), w)
           else if strict_eq method (JStr ''initialized'') then (Return JNull, w)
           else if strict_eq method (JStr ''tools/list'') then
             (Return (result_response rid (JObj [(''tools'', JArr (getTools env (files w)))])), w)
           else if strict_eq method (JStr ''tools/call'') then
             (if nullish params then (Throw TypeError, w)
              else
                (let name = get_prop params ''name'';
                     args = (case get_prop params ''arguments'' of JUndefined \<Rightarrow> JObj [] | a \<Rightarrow> a);
                     config = loadConfig env (files w)
                 in
                   if strict_eq name (toolName config) then
                     (case description_arg args of
                        Return desc \<Rightarrow>
                          (case executeTool env desc w of
                             (Return content, w') \<Rightarrow>
                               (Return (result_response rid
                                  (JObj [(''content'', JArr (map block_json content))])), w')
                           | (Throw e, w') \<Rightarrow> (Throw e, w')
                           | (OutsideTypes, w') \<Rightarrow> (OutsideTypes, w'))
                      | Throw e \<Rightarrow> (Throw e, w)
                      | OutsideTypes \<Rightarrow> (OutsideTypes, w))
                   else
                     (rbind (to_string name) (\<lambda>n.
                        Return (error_response rid (- 32602) (''Unknown tool: '' @ n))), w)))
           else
             (rbind (to_string method) (\<lambda>m.
                Return (error_response rid (- 32601) (''Method not found: '' @ m))), w)))"

text \<open>
  The server: its world, the input buffer and the lines written to standard output. Each
  \<open>handle\<close> runs to its end before the next line is handled; the source starts them in
  order and lets a \<open>tools/call\<close> that waits for feedback overlap with later lines.
\<close>

record server =
  srv_world :: world
  buf :: string
  stdout :: "string list"

definition handle :: "js_env \<Rightarrow> string \<Rightarrow> server \<Rightarrow> server result" where
  "handle env msg s =
     (case parse env msg of
        Return req \<Rightarrow>
          (case process env req (srv_world s) of
             (Return res, w') \<Rightarrow>
               Return (if truthy res
                       then s\<lparr>srv_world := w', stdout := stdout s @ [JSON_stringify env res @ [CHR 0x0A]]\<rparr>
                       else s\<lparr>srv_world := w'\<rparr>)
           | (Throw e, w') \<Rightarrow> Return (s\<lparr>srv_world := w'\<rparr>)
           | (OutsideTypes, w') \<Rightarrow> OutsideTypes)
      | Throw e \<Rightarrow> Return s
      | OutsideTypes \<Rightarrow> OutsideTypes)"

fun handle_all :: "js_env \<Rightarrow> string list \<Rightarrow> server \<Rightarrow> server result" where
  "handle_all env [] s = Return s"
| "handle_all env (l # ls) s = rbind (handle env l s) (handle_all env ls)"

text \<open>\<open>lines.pop() || ''\<close> and what \<open>pop\<close> leaves.\<close>

definition pop_last :: "string list \<Rightarrow> string" where
  "pop_last ls = (case ls of [] \<Rightarrow> [] | _ \<Rightarrow> last ls)"

definition onData :: "js_env \<Rightarrow> string \<Rightarrow> server \<Rightarrow> server result" where
  "onData env chunk s =
     (let lines = str_split (buf s @ chunk) [CHR 0x0A]
      in handle_all env (filter (\<lambda>l. trim l \<noteq> []) (butlast lines)) (s\<lparr>buf := pop_last lines\<rparr>))"

fun onData_all :: "js_env \<Rightarrow> string list \<Rightarrow> server \<Rightarrow> server result" where
  "onData_all env [] s = Return s"
| "onData_all env (c # cs) s = rbind (onData env c s) (onData_all env cs)"

section \<open>Session directories\<close>

text \<open>
  What a starting process gets from its host: the temporary and the home directory, the
  bytes \<open>crypto.randomBytes(8)\<close> returns, and a process id that tells two processes apart.
\<close>

record session =
  tmpdir :: string
  homedir :: string
  randomBytes8 :: "8 word list"
  pid :: nat

definition hex_digit :: "nat \<Rightarrow> char" where
  "hex_digit n = (if n < 10 then char_of (48 + n) else char_of (87 + n))"

definition hex_byte :: "8 word \<Rightarrow> string" where
  "hex_byte b = [hex_digit (unat b div 16), hex_digit (unat b mod 16)]"

text \<open>\<open>buffer.toString('hex')\<close>\<close>

definition toString_hex :: "8 word list \<Rightarrow> string" where
  "toString_hex bs = concat (map hex_byte bs)"


definition INSTANCE_ID :: "session \<Rightarrow> string" where
  "INSTANCE_ID se = toString_hex (randomBytes8 se)"

definition FEEDBACK_DIR :: "session \<Rightarrow> string" where
  "FEEDBACK_DIR se = path_join [tmpdir se, ''.autotester'', INSTANCE_ID se]"

definition ca_FEEDBACK_DIR :: "session \<Rightarrow> string" where
  "ca_FEEDBACK_DIR se = path_join [homedir se, ''.autotester'']"

fun ctl_name :: "ctl \<Rightarrow> string" where
  "ctl_name FEEDBACK_FILE = ''feedback.json''"
| "ctl_name REQUEST_FILE = ''request.json''"
| "ctl_name CONFIG_FILE = ''config.json''"

definition ctl_path :: "session \<Rightarrow> ctl \<Rightarrow> string" where
  "ctl_path se f = path_join [FEEDBACK_DIR se, ctl_name f]"

definition ca_ctl_path :: "session \<Rightarrow> ctl \<Rightarrow> string" where
  "ca_ctl_path se f = path_join [ca_FEEDBACK_DIR se, ctl_name f]"

text \<open>
  The command line the extension gives the server (\<open>provideMcpServerDefinitions\<close>, as
  \<open>process.argv\<close>), and \<open>getFeedbackDir\<close>, which reads it back.
\<close>

definition server_argv :: "string \<Rightarrow> string \<Rightarrow> string list" where
  "server_argv mcpServerPath feedbackDir = [''node'', mcpServerPath, ''--feedback-dir'', feedbackDir]"

fun indexOf :: "string list \<Rightarrow> string \<Rightarrow> nat option" where
  "indexOf [] x = None"
| "indexOf (y # ys) x = (if y = x then Some 0 else map_option Suc (indexOf ys x))"

definition getFeedbackDir :: "string list \<Rightarrow> string \<Rightarrow> string" where
  "getFeedbackDir argv tmp =
     (let args = drop 2 argv
      in case indexOf args ''--feedback-dir'' of
           Some i \<Rightarrow>
             (if i + 1 < length args \<and> args ! (i + 1) \<noteq> [] then args ! (i + 1)
              else path_join [tmp, ''.autotester''])
         | None \<Rightarrow> path_join [tmp, ''.autotester''])"

section \<open>Files\<close>

lemma read_file_simps:
  "read_file (fs\<lparr>channel_dir := Some ch\<rparr>) f = file_of f ch"
  "read_file (fs\<lparr>channel_dir := None\<rparr>) f = None"
  by (simp_all add: read_file_def)

lemma file_of_set_file: "file_of f (set_file g x ch) = (if f = g then x else file_of f ch)"
  by (cases f; cases g) simp_all

lemma unlinkSync_present:
  "read_file fs f = Some txt \<Longrightarrow>
     \<exists>ch. channel_dir fs = Some ch \<and> unlinkSync f fs = Return (fs\<lparr>channel_dir := Some (set_file f None ch)\<rparr>)"
  by (auto simp: read_file_def unlinkSync_def split: option.splits)

lemma ensureDir_read_file [simp]: "read_file (ensureDir fs) f = read_file fs f"
  by (cases "channel_dir fs"; cases f)
     (simp_all add: ensureDir_def existsSync_dir_def mkdirSync_def read_file_def empty_channel_def)

lemma ensureDir_dir: "\<exists>ch. channel_dir (ensureDir fs) = Some ch"
  by (cases "channel_dir fs") (simp_all add: ensureDir_def existsSync_dir_def mkdirSync_def)

lemma writeFileSync_ensureDir:
  "\<exists>fs'. writeFileSync f txt (ensureDir fs) = Return fs'
     \<and> (\<forall>g. read_file fs' g = (if g = f then Some txt else read_file fs g))
     \<and> channel_dir fs' \<noteq> None"
proof -
  obtain ch where ch: "channel_dir (ensureDir fs) = Some ch" using ensureDir_dir by blast
  have "\<And>g. file_of g ch = read_file fs g"
    using ensureDir_read_file [of fs] ch by (simp add: read_file_def)
  then show ?thesis
    by (simp add: writeFileSync_def ch read_file_simps file_of_set_file)
qed

section \<open>The wait loop without feedback\<close>

lemma poll_absent: "read_file fs FEEDBACK_FILE = None \<Longrightarrow> poll env fs = (Return None, fs)"
  by (simp add: poll_def existsSync_def)

lemma checkForRequest_feedback:
  "read_file (snd (checkForRequest env fs)) f = (if f = REQUEST_FILE \<and> (\<exists>tx v. read_file fs REQUEST_FILE = Some tx \<and> JSON_parse env tx = Some v) then None else read_file fs f)"
proof (cases "read_file fs REQUEST_FILE")
  case None
  then show ?thesis by (simp add: checkForRequest_def existsSync_def)
next
  case (Some tx)
  show ?thesis
  proof (cases "JSON_parse env tx")
    case None
    with Some show ?thesis
      by (simp add: checkForRequest_def existsSync_def readFileSync_def parse_def)
  next
    case (Some v)
    from unlinkSync_present [OF \<open>read_file fs REQUEST_FILE = Some tx\<close>] obtain ch where
      ch: "channel_dir fs = Some ch"
      and ul: "unlinkSync REQUEST_FILE fs = Return (fs\<lparr>channel_dir := Some (set_file REQUEST_FILE None ch)\<rparr>)"
      by blast
    have "checkForRequest env fs = (v, fs\<lparr>channel_dir := Some (set_file REQUEST_FILE None ch)\<rparr>)"
      using \<open>read_file fs REQUEST_FILE = Some tx\<close> Some ul
      by (simp add: checkForRequest_def existsSync_def readFileSync_def parse_def)
    then show ?thesis
      using \<open>read_file fs REQUEST_FILE = Some tx\<close> Some ch
      by (cases f) (auto simp: read_file_def)
  qed
qed

lemma apply_event_quiet:
  assumes "\<not> touches_feedback e" and "read_file fs FEEDBACK_FILE = None"
  shows "read_file (apply_event env (t, e) fs) FEEDBACK_FILE = None"
proof (cases e)
  case (EvWriteFeedback x1 x2)
  with assms show ?thesis by simp
next
  case EvCheckForRequest
  with assms show ?thesis by (simp add: checkForRequest_feedback)
next
  case (EvWriteConfig c)
  obtain fs' where "writeConfig env c fs = Return fs'" "read_file fs' FEEDBACK_FILE = read_file fs FEEDBACK_FILE"
    using writeFileSync_ensureDir [of CONFIG_FILE _ fs] by (fastforce simp: writeConfig_def)
  with assms EvWriteConfig show ?thesis by (simp add: returned_or_def)
next
  case EvDeactivate
  with assms show ?thesis
    by (cases "channel_dir fs") (auto simp: returned_or_def deactivate_def existsSync_dir_def rmSync_def read_file_simps)
next
  case (EvPut f x)
  obtain ch where ch: "channel_dir (ensureDir fs) = Some ch" using ensureDir_dir by blast
  have "file_of FEEDBACK_FILE ch = None"
    using ensureDir_read_file [of fs FEEDBACK_FILE] ch assms(2) by (simp add: read_file_def)
  with assms EvPut ch show ?thesis by (cases f) (simp_all add: read_file_simps)
qed

lemma fold_events_quiet:
  assumes "\<forall>(t, e) \<in> set evs. \<not> touches_feedback e" and "read_file fs FEEDBACK_FILE = None"
  shows "read_file (fold (apply_event env) evs fs) FEEDBACK_FILE = None"
  using assms
proof (induction evs arbitrary: fs)
  case Nil
  then show ?case by simp
next
  case (Cons a evs)
  obtain t e where a: "a = (t, e)" by (cases a)
  with Cons.prems have "read_file (apply_event env a fs) FEEDBACK_FILE = None"
    by (simp add: apply_event_quiet)
  with Cons show ?case by simp
qed

lemma sleep_simps [simp]:
  "clock (sleep env d w) = clock w + d"
  "pending (sleep env d w) = filter (\<lambda>(t, e). \<not> t < clock w + d) (pending w)"
  "files (sleep env d w) = fold (apply_event env) (filter (\<lambda>(t, e). t < clock w + d) (pending w)) (files w)"
  by (simp_all add: sleep_def)

lemma waitLoop_no_feedback:
  assumes "read_file (files w) FEEDBACK_FILE = None"
    and "(clock w - start) mod 500 = 0"
    and "\<forall>(t, e) \<in> set (pending w). touches_feedback e \<longrightarrow>
           (\<forall>c. (c - start) mod 500 = 0 \<and> t < c \<longrightarrow> timeout \<le> c - start)"
  shows "fst (waitLoop env start timeout w) = Return timeout_reply"
  using assms
proof (induction "nat (start + timeout - clock w)" arbitrary: w rule: less_induct)
  case less
  show ?case
  proof (cases "clock w - start < timeout")
    case False
    then show ?thesis by (simp add: waitLoop.simps)
  next
    case True
    let ?w' = "sleep env 500 w"
    have step: "waitLoop env start timeout w = waitLoop env start timeout ?w'"
      using True less.prems(1) by (subst waitLoop.simps) (simp add: poll_absent)
    have phase: "(clock ?w' - start) mod 500 = 0"
    proof -
      have "clock ?w' - start = (clock w - start) + 500" by simp
      then show ?thesis using less.prems(2) by (simp only: mod_add_self2)
    qed
    show ?thesis
    proof (cases "clock ?w' - start < timeout")
      case False
      then show ?thesis unfolding step by (subst waitLoop.simps) simp
    next
      case again: True
      have quiet: "\<forall>(t, e) \<in> set (filter (\<lambda>(t, e). t < clock w + 500) (pending w)). \<not> touches_feedback e"
      proof (clarsimp)
        fix t e
        assume "(t, e) \<in> set (pending w)" "t < clock w + 500" "touches_feedback e"
        with less.prems(3) have "\<forall>c. (c - start) mod 500 = 0 \<and> t < c \<longrightarrow> timeout \<le> c - start"
          by (auto dest!: bspec)
        then have "timeout \<le> clock ?w' - start"
          using phase \<open>t < clock w + 500\<close> by simp
        with again show False by simp
      qed
      have absent: "read_file (files ?w') FEEDBACK_FILE = None"
        using fold_events_quiet [OF quiet less.prems(1)] by simp
      have later: "\<forall>(t, e) \<in> set (pending ?w'). touches_feedback e \<longrightarrow>
           (\<forall>c. (c - start) mod 500 = 0 \<and> t < c \<longrightarrow> timeout \<le> c - start)"
        using less.prems(3) by auto
      have "nat (start + timeout - clock ?w') < nat (start + timeout - clock w)"
        using True by simp
      from less.hyps [OF this absent phase later] show ?thesis
        unfolding step .
    qed
  qed
qed


lemma executeTool_unfold:
  "\<exists>fs2. read_file fs2 FEEDBACK_FILE = None
     \<and> read_file fs2 REQUEST_FILE = Some (JSON_stringify env (request_json prompt (clock w)))
     \<and> read_file fs2 CONFIG_FILE = read_file (files w) CONFIG_FILE
     \<and> executeTool env prompt w = waitForFeedback env 300000 (sleep env 500 (w\<lparr>files := fs2\<rparr>))"
proof -
  let ?tx = "JSON_stringify env (request_json prompt (clock w))"
  have "\<exists>fs1. (if existsSync (files w) FEEDBACK_FILE then unlinkSync FEEDBACK_FILE (files w)
               else Return (files w)) = Return fs1
          \<and> read_file fs1 FEEDBACK_FILE = None
          \<and> read_file fs1 CONFIG_FILE = read_file (files w) CONFIG_FILE"
  proof (cases "read_file (files w) FEEDBACK_FILE")
    case None
    then show ?thesis by (simp add: existsSync_def)
  next
    case (Some old)
    from unlinkSync_present [OF Some] obtain ch where
      ch: "channel_dir (files w) = Some ch"
      and ul: "unlinkSync FEEDBACK_FILE (files w) = Return ((files w)\<lparr>channel_dir := Some (set_file FEEDBACK_FILE None ch)\<rparr>)"
      by blast
    with Some show ?thesis by (simp add: existsSync_def read_file_def)
  qed
  then obtain fs1 where
    fs1: "(if existsSync (files w) FEEDBACK_FILE then unlinkSync FEEDBACK_FILE (files w)
           else Return (files w)) = Return fs1"
    and a1: "read_file fs1 FEEDBACK_FILE = None"
    and c1: "read_file fs1 CONFIG_FILE = read_file (files w) CONFIG_FILE"
    by blast
  from writeFileSync_ensureDir [of REQUEST_FILE ?tx fs1] obtain fs2 where
    fs2: "writeFileSync REQUEST_FILE ?tx (ensureDir fs1) = Return fs2"
    and rd: "\<forall>g. read_file fs2 g = (if g = REQUEST_FILE then Some ?tx else read_file fs1 g)"
    by blast
  have "executeTool env prompt w = waitForFeedback env 300000 (sleep env 500 (w\<lparr>files := fs2\<rparr>))"
    unfolding executeTool_def fs1 by (simp add: fs2)
  with rd a1 c1 show ?thesis by (intro exI [of _ fs2]) simp
qed

lemma waitForFeedback_quiet:
  assumes "read_file (files w) FEEDBACK_FILE = None"
    and "\<forall>(t, e) \<in> set (pending w). touches_feedback e \<longrightarrow>
           (\<forall>c. (c - clock w) mod 500 = 0 \<and> t < c \<longrightarrow> timeout \<le> c - clock w)"
  shows "fst (waitForFeedback env timeout w) = Return timeout_reply"
  unfolding waitForFeedback_def Let_def
  by (rule waitLoop_no_feedback) (use assms in simp_all)

section \<open>Taking a feedback message\<close>

lemma as_strings_map: "as_strings (map JStr is) = Some is"
  by (induction "is") simp_all

lemma decode_feedback_json: "decode_feedback (feedback_json T is t) = Return (T, is)"
  by (simp add: decode_feedback_def feedback_json_def get_prop_def as_strings_map)

lemma loadConfig_cong:
  "read_file fs CONFIG_FILE = read_file fs' CONFIG_FILE \<Longrightarrow> loadConfig env fs = loadConfig env fs'"
  by (simp add: loadConfig_def existsSync_def readFileSync_def)

lemma write_image_read_file:
  "write_image name bytes fs = Return fs' \<Longrightarrow> read_file fs' f = read_file fs f"
  by (cases f) (auto simp: write_image_def read_file_def split: if_splits option.splits)

lemma ensure_images_dir_read_file [simp]: "read_file (ensure_images_dir fs) f = read_file fs f"
  by (cases f) (auto simp: ensure_images_dir_def read_file_def empty_channel_def split: option.splits)

lemma save_images_text:
  "\<exists>suf blocks fs'. save_images env i imgs (body, blocks0, fs) = (body @ suf, blocks, fs')
      \<and> (\<forall>f. read_file fs' f = read_file fs f)"
proof (induction imgs arbitrary: i body blocks0 fs)
  case Nil
  then show ?case by simp
next
  case (Cons img imgs)
  obtain data mimeType where p: "parseDataUri img = (data, mimeType)" by (cases "parseDataUri img")
  let ?name = "image_name i (image_ext mimeType)"
  let ?r = "rbind (case data of None \<Rightarrow> Throw TypeError | Some d \<Rightarrow> Return d) (\<lambda>d.
           rbind (write_image ?name (Buffer_from_base64 env d) fs) (\<lambda>fs'.
           Return
             (body @ [CHR 0x0A] @ ''- Image '' @ show_nat (i + 1) @ '': '' @ image_path env ?name,
              blocks0 @ [ImageBlock d mimeType],
              fs')))"
  show ?case
  proof (cases ?r)
    case (Return acc')
    then obtain d fs1 where
      d: "data = Some d"
      and w: "write_image ?name (Buffer_from_base64 env d) fs = Return fs1"
      and acc: "acc' = (body @ [CHR 0x0A] @ ''- Image '' @ show_nat (i + 1) @ '': '' @ image_path env ?name,
              blocks0 @ [ImageBlock d mimeType], fs1)"
      by (cases data; cases "write_image ?name (Buffer_from_base64 env (the data)) fs") auto
    from Cons.IH [of "i + 1" "body @ [CHR 0x0A] @ ''- Image '' @ show_nat (i + 1) @ '': '' @ image_path env ?name"
        "blocks0 @ [ImageBlock d mimeType]" fs1]
    obtain suf blocks fs' where
      "save_images env (i + 1) imgs acc' = ((body @ [CHR 0x0A] @ ''- Image '' @ show_nat (i + 1) @ '': '' @ image_path env ?name) @ suf, blocks, fs')"
      "\<forall>f. read_file fs' f = read_file fs1 f"
      unfolding acc by blast
    moreover have "save_images env i (img # imgs) (body, blocks0, fs) = save_images env (i + 1) imgs acc'"
      using p Return by simp
    ultimately show ?thesis using write_image_read_file [OF w] by auto
  next
    case (Throw e)
    then have "save_images env i (img # imgs) (body, blocks0, fs) = save_images env (i + 1) imgs (body, blocks0, fs)"
      using p by simp
    with Cons.IH [of "i + 1" body blocks0 fs] show ?thesis by simp
  next
    case OutsideTypes
    then have "save_images env i (img # imgs) (body, blocks0, fs) = save_images env (i + 1) imgs (body, blocks0, fs)"
      using p by simp
    with Cons.IH [of "i + 1" body blocks0 fs] show ?thesis by simp
  qed
qed

lemma template_Some: "template v = Some s \<longleftrightarrow> to_string v = Return s"
  by (simp add: template_def split: result.splits)

lemma template_JStr [simp]: "template (JStr s) = Some s"
  by (simp add: template_def)

lemma build_reply_text:
  assumes "template (footer (loadConfig env fs1)) = Some ft"
  shows "\<exists>suf blocks fs2. build_reply env T is fs1 = (Return (TextBlock (T @ suf @ ft) # blocks), fs2)
           \<and> (\<forall>f. read_file fs2 f = read_file fs1 f)"
proof (cases "is = []")
  case True
  with assms show ?thesis by (simp add: build_reply_def template_Some)
next
  case False
  let ?t0 = "T @ [CHR 0x0A, CHR 0x0A] @ ''[User attached '' @ show_nat (length is) @ '' image(s)]''"
  from save_images_text [of env 0 "is" ?t0 "[]" "ensure_images_dir fs1"]
  obtain suf blocks fs' where
    sv: "save_images env 0 is (?t0, [], ensure_images_dir fs1) = (?t0 @ suf, blocks, fs')"
    and rd: "\<forall>f. read_file fs' f = read_file (ensure_images_dir fs1) f"
    by blast
  have "loadConfig env fs' = loadConfig env fs1"
    by (rule loadConfig_cong) (simp add: rd)
  with assms False sv rd show ?thesis
    by (simp add: build_reply_def template_Some)
qed

lemma poll_message:
  assumes "read_file fs FEEDBACK_FILE = Some tx"
    and "JSON_parse env tx = Some (feedback_json T is t)"
    and "T \<noteq> [] \<or> is \<noteq> []"
    and "template (footer (loadConfig env fs)) = Some ft"
  shows "\<exists>suf blocks fs'. poll env fs = (Return (Some (TextBlock (T @ suf @ ft) # blocks)), fs')
           \<and> read_file fs' FEEDBACK_FILE = None"
proof -
  from unlinkSync_present [OF assms(1)] obtain ch where
    ch: "channel_dir fs = Some ch"
    and ul: "unlinkSync FEEDBACK_FILE fs = Return (fs\<lparr>channel_dir := Some (set_file FEEDBACK_FILE None ch)\<rparr>)"
    by blast
  let ?fs1 = "fs\<lparr>channel_dir := Some (set_file FEEDBACK_FILE None ch)\<rparr>"
  have rd1: "read_file ?fs1 FEEDBACK_FILE = None" "read_file ?fs1 CONFIG_FILE = read_file fs CONFIG_FILE"
    by (simp_all add: read_file_def ch)
  have "loadConfig env ?fs1 = loadConfig env fs"
    by (rule loadConfig_cong) (rule rd1)
  with assms(4) have "template (footer (loadConfig env ?fs1)) = Some ft" by simp
  from build_reply_text [OF this, of T "is"] obtain suf blocks fs2 where
    br: "build_reply env T is ?fs1 = (Return (TextBlock (T @ suf @ ft) # blocks), fs2)"
    and rd2: "\<forall>f. read_file fs2 f = read_file ?fs1 f"
    by blast
  have "poll env fs = (Return (Some (TextBlock (T @ suf @ ft) # blocks)), fs2)"
    using assms(1-3) ul br
    by (simp add: poll_def existsSync_def readFileSync_def parse_def decode_feedback_json)
  moreover have "read_file fs2 FEEDBACK_FILE = None"
    using rd2 rd1(1) by (simp only:)
  ultimately show ?thesis by blast
qed


lemma apply_write_feedback:
  "read_file (apply_event env (t, EvWriteFeedback T images) fs) f =
     (if f = FEEDBACK_FILE
      then Some (JSON_stringify env (feedback_json T (case images of None \<Rightarrow> [] | Some is \<Rightarrow> is) t))
      else read_file fs f)"
proof -
  let ?tx = "JSON_stringify env (feedback_json T (case images of None \<Rightarrow> [] | Some is \<Rightarrow> is) t)"
  from writeFileSync_ensureDir [of FEEDBACK_FILE ?tx fs] obtain fs' where
    "writeFileSync FEEDBACK_FILE ?tx (ensureDir fs) = Return fs'"
    "\<forall>g. read_file fs' g = (if g = FEEDBACK_FILE then Some ?tx else read_file fs g)"
    by blast
  then show ?thesis by (simp add: writeFeedback_def returned_or_def)
qed

lemma fold_ticks_and_write:
  assumes "\<forall>ev \<in> set evs. snd ev = EvCheckForRequest \<or> ev = (t, EvWriteFeedback T images)"
  shows "read_file (fold (apply_event env) evs fs) CONFIG_FILE = read_file fs CONFIG_FILE
       \<and> read_file (fold (apply_event env) evs fs) FEEDBACK_FILE =
           (if (t, EvWriteFeedback T images) \<in> set evs
            then Some (JSON_stringify env (feedback_json T (case images of None \<Rightarrow> [] | Some is \<Rightarrow> is) t))
            else read_file fs FEEDBACK_FILE)"
  using assms
proof (induction evs arbitrary: fs)
  case Nil
  then show ?case by simp
next
  case (Cons a evs)
  from Cons.prems have rest: "\<forall>ev \<in> set evs. snd ev = EvCheckForRequest \<or> ev = (t, EvWriteFeedback T images)"
    by simp
  note IH = Cons.IH [OF rest, of "apply_event env a fs"]
  from Cons.prems have "snd a = EvCheckForRequest \<or> a = (t, EvWriteFeedback T images)" by simp
  then show ?case
  proof
    assume tick: "snd a = EvCheckForRequest"
    then obtain t' where a: "a = (t', EvCheckForRequest)" by (cases a) simp
    have "read_file (apply_event env a fs) CONFIG_FILE = read_file fs CONFIG_FILE"
      "read_file (apply_event env a fs) FEEDBACK_FILE = read_file fs FEEDBACK_FILE"
      by (simp_all add: a checkForRequest_feedback)
    moreover have "a \<noteq> (t, EvWriteFeedback T images)" using a by simp
    ultimately show ?thesis using IH by (simp del: apply_event.simps)
  next
    assume a: "a = (t, EvWriteFeedback T images)"
    have "read_file (apply_event env a fs) CONFIG_FILE = read_file fs CONFIG_FILE"
      "read_file (apply_event env a fs) FEEDBACK_FILE
         = Some (JSON_stringify env (feedback_json T (case images of None \<Rightarrow> [] | Some is \<Rightarrow> is) t))"
      unfolding a by (simp_all add: apply_write_feedback del: apply_event.simps)
    then show ?thesis using IH a by (simp del: apply_event.simps)
  qed
qed

lemma waitLoop_delivers:
  assumes msg: "JSON_parse env (JSON_stringify env (feedback_json T (case images of None \<Rightarrow> [] | Some is \<Rightarrow> is) t))
                  = Some (feedback_json T (case images of None \<Rightarrow> [] | Some is \<Rightarrow> is) t)"
    and nonempty: "T \<noteq> [] \<or> (case images of None \<Rightarrow> [] | Some is \<Rightarrow> is) \<noteq> []"
    and cfg: "template (footer (loadConfig env (files w))) = Some ft"
    and others: "\<forall>ev \<in> set (pending w). snd ev = EvCheckForRequest \<or> ev = (t, EvWriteFeedback T images)"
    and state: "(read_file (files w) FEEDBACK_FILE
                   = Some (JSON_stringify env (feedback_json T (case images of None \<Rightarrow> [] | Some is \<Rightarrow> is) t))
                 \<and> clock w - start < timeout)
              \<or> (read_file (files w) FEEDBACK_FILE = None
                 \<and> (t, EvWriteFeedback T images) \<in> set (pending w)
                 \<and> clock w \<le> t \<and> t + 500 < start + timeout)"
  shows "\<exists>suf blocks. fst (waitLoop env start timeout w) = Return (TextBlock (T @ suf @ ft) # blocks)"
  using cfg others state
proof (induction "nat (start + timeout - clock w)" arbitrary: w rule: less_induct)
  case less
  let ?is = "case images of None \<Rightarrow> [] | Some is \<Rightarrow> is"
  let ?tx = "JSON_stringify env (feedback_json T ?is t)"
  from less.prems(3) show ?case
  proof
    assume here: "read_file (files w) FEEDBACK_FILE = Some ?tx \<and> clock w - start < timeout"
    from poll_message [OF _ msg nonempty less.prems(1)] here
    obtain suf blocks fs' where
      "poll env (files w) = (Return (Some (TextBlock (T @ suf @ ft) # blocks)), fs')"
      by blast
    with here have "fst (waitLoop env start timeout w) = Return (TextBlock (T @ suf @ ft) # blocks)"
      by (subst waitLoop.simps) simp
    then show ?thesis by blast
  next
    assume wait: "read_file (files w) FEEDBACK_FILE = None
                 \<and> (t, EvWriteFeedback T images) \<in> set (pending w)
                 \<and> clock w \<le> t \<and> t + 500 < start + timeout"
    let ?w' = "sleep env 500 w"
    let ?due = "filter (\<lambda>(t, e). t < clock w + 500) (pending w)"
    have run: "clock w - start < timeout" using wait by simp
    have step: "waitLoop env start timeout w = waitLoop env start timeout ?w'"
      using run wait by (subst waitLoop.simps) (simp add: poll_absent)
    have due: "\<forall>ev \<in> set ?due. snd ev = EvCheckForRequest \<or> ev = (t, EvWriteFeedback T images)"
      using less.prems(2) by simp
    from fold_ticks_and_write [OF due, of env "files w"]
    have c': "read_file (files ?w') CONFIG_FILE = read_file (files w) CONFIG_FILE"
      and f': "read_file (files ?w') FEEDBACK_FILE =
                (if (t, EvWriteFeedback T images) \<in> set ?due then Some ?tx else read_file (files w) FEEDBACK_FILE)"
      by simp_all
    have cfg': "template (footer (loadConfig env (files ?w'))) = Some ft"
      using loadConfig_cong [OF c', of env] less.prems(1) by simp
    have others': "\<forall>ev \<in> set (pending ?w'). snd ev = EvCheckForRequest \<or> ev = (t, EvWriteFeedback T images)"
      using less.prems(2) by simp
    have state': "(read_file (files ?w') FEEDBACK_FILE = Some ?tx \<and> clock ?w' - start < timeout)
              \<or> (read_file (files ?w') FEEDBACK_FILE = None
                 \<and> (t, EvWriteFeedback T images) \<in> set (pending ?w')
                 \<and> clock ?w' \<le> t \<and> t + 500 < start + timeout)"
    proof (cases "t < clock w + 500")
      case True
      with wait have "(t, EvWriteFeedback T images) \<in> set ?due" by simp
      with f' have "read_file (files ?w') FEEDBACK_FILE = Some ?tx" by (simp only: if_True)
      moreover have "clock ?w' - start < timeout" using wait by simp
      ultimately show ?thesis by blast
    next
      case False
      with wait have "(t, EvWriteFeedback T images) \<notin> set ?due" by simp
      with f' wait have "read_file (files ?w') FEEDBACK_FILE = None" by (simp only: if_False)
      moreover have "(t, EvWriteFeedback T images) \<in> set (pending ?w')" using wait False by simp
      moreover have "clock ?w' \<le> t" using False by simp
      ultimately show ?thesis using wait by blast
    qed
    have "nat (start + timeout - clock ?w') < nat (start + timeout - clock w)"
      using run by simp
    from less.hyps [OF this cfg' others' state'] show ?thesis
      unfolding step .
  qed
qed

lemma executeTool_quiet:
  assumes "\<forall>(t, e) \<in> set (pending w). touches_feedback e \<longrightarrow> clock w + 300000 \<le> t"
  shows "fst (executeTool env prompt w) = Return timeout_reply"
proof -
  from executeTool_unfold [of env prompt w] obtain fs2 where
    absent: "read_file fs2 FEEDBACK_FILE = None"
    and run: "executeTool env prompt w = waitForFeedback env 300000 (sleep env 500 (w\<lparr>files := fs2\<rparr>))"
    by blast
  let ?w1 = "sleep env 500 (w\<lparr>files := fs2\<rparr>)"
  have "\<forall>(t, e) \<in> set (filter (\<lambda>(t, e). t < clock w + 500) (pending w)). \<not> touches_feedback e"
    using assms by fastforce
  from fold_events_quiet [OF this absent] have "read_file (files ?w1) FEEDBACK_FILE = None"
    by simp
  moreover have "\<forall>(t, e) \<in> set (pending ?w1). touches_feedback e \<longrightarrow>
           (\<forall>c. (c - clock ?w1) mod 500 = 0 \<and> t < c \<longrightarrow> 300000 \<le> c - clock ?w1)"
  proof -
    have key: "300000 \<le> c - (clock w + 500)"
      if "(t, e) \<in> set (pending w)" "touches_feedback e" "t < c"
        and m: "(c - (clock w + 500)) mod 500 = 0" for t e c
    proof -
      from that assms have late: "clock w + 300000 < c" by fastforce
      from m have "500 dvd (c - (clock w + 500))" by (simp only: dvd_eq_mod_eq_0)
      then obtain k where k: "c - (clock w + 500) = 500 * k" by (rule dvdE)
      with late have "300000 < 500 * k + 500" by linarith
      then have "600 \<le> k" by linarith
      with k show ?thesis by linarith
    qed
    show ?thesis
    proof (rule ballI)
      fix x
      assume x: "x \<in> set (pending ?w1)"
      obtain t e where xe: "x = (t, e)" by (cases x)
      from x xe have mem: "(t, e) \<in> set (pending w)" by simp
      show "case x of (t, e) \<Rightarrow> touches_feedback e \<longrightarrow>
              (\<forall>c. (c - clock ?w1) mod 500 = 0 \<and> t < c \<longrightarrow> 300000 \<le> c - clock ?w1)"
        unfolding xe prod.case
      proof (intro impI allI)
        fix c
        assume "touches_feedback e" and "(c - clock ?w1) mod 500 = 0 \<and> t < c"
        then show "300000 \<le> c - clock ?w1" using key [OF mem, of c] by simp
      qed
    qed
  qed
  ultimately have "fst (waitForFeedback env 300000 ?w1) = Return timeout_reply"
    by (rule waitForFeedback_quiet)
  then show ?thesis by (simp add: run)
qed

section \<open>The calls outside every try\<close>

lemma poll_unparsable:
  assumes "\<forall>tx. read_file fs FEEDBACK_FILE = Some tx \<longrightarrow> JSON_parse env tx = None"
  shows "poll env fs = (Return None, fs)"
  using assms
  by (cases "read_file fs FEEDBACK_FILE")
     (simp_all add: poll_def existsSync_def readFileSync_def parse_def)

lemma apply_event_untouched:
  assumes "\<not> touches_feedback e"
  shows "read_file (apply_event env (t, e) fs) FEEDBACK_FILE = None
       \<or> read_file (apply_event env (t, e) fs) FEEDBACK_FILE = read_file fs FEEDBACK_FILE"
proof (cases e)
  case (EvWriteFeedback x1 x2)
  with assms show ?thesis by simp
next
  case EvCheckForRequest
  then show ?thesis by (simp add: checkForRequest_feedback)
next
  case (EvWriteConfig c)
  obtain fs' where "writeConfig env c fs = Return fs'" "read_file fs' FEEDBACK_FILE = read_file fs FEEDBACK_FILE"
    using writeFileSync_ensureDir [of CONFIG_FILE _ fs] by (fastforce simp: writeConfig_def)
  with EvWriteConfig show ?thesis by (simp add: returned_or_def)
next
  case EvDeactivate
  then show ?thesis
    by (cases "channel_dir fs") (auto simp: returned_or_def deactivate_def existsSync_dir_def rmSync_def read_file_simps)
next
  case (EvPut f x)
  obtain ch where ch: "channel_dir (ensureDir fs) = Some ch" using ensureDir_dir by blast
  have "file_of FEEDBACK_FILE ch = read_file fs FEEDBACK_FILE"
    using ensureDir_read_file [of fs FEEDBACK_FILE] ch by (simp add: read_file_def)
  with assms EvPut ch show ?thesis by (cases f) (simp_all add: read_file_simps)
qed

lemma fold_events_untouched:
  assumes "\<forall>(t, e) \<in> set evs. \<not> touches_feedback e"
    and "\<forall>tx. read_file fs FEEDBACK_FILE = Some tx \<longrightarrow> JSON_parse env tx = None"
  shows "\<forall>tx. read_file (fold (apply_event env) evs fs) FEEDBACK_FILE = Some tx \<longrightarrow> JSON_parse env tx = None"
  using assms
proof (induction evs arbitrary: fs)
  case Nil
  then show ?case by simp
next
  case (Cons a evs)
  obtain t e where a: "a = (t, e)" by (cases a)
  with Cons.prems(1) have "\<not> touches_feedback e" by simp
  from apply_event_untouched [OF this, of env t fs] Cons.prems(2)
  have "\<forall>tx. read_file (apply_event env a fs) FEEDBACK_FILE = Some tx \<longrightarrow> JSON_parse env tx = None"
    unfolding a by auto
  moreover from Cons.prems(1) have "\<forall>(t, e) \<in> set evs. \<not> touches_feedback e" by simp
  ultimately show ?case using Cons.IH by simp
qed

lemma waitLoop_idle:
  assumes "\<forall>tx. read_file (files w) FEEDBACK_FILE = Some tx \<longrightarrow> JSON_parse env tx = None"
    and "\<forall>(t, e) \<in> set (pending w). \<not> touches_feedback e"
  shows "fst (waitLoop env start timeout w) = Return timeout_reply"
  using assms
proof (induction "nat (start + timeout - clock w)" arbitrary: w rule: less_induct)
  case less
  show ?case
  proof (cases "clock w - start < timeout")
    case False
    then show ?thesis by (simp add: waitLoop.simps)
  next
    case True
    let ?w' = "sleep env 500 w"
    have step: "waitLoop env start timeout w = waitLoop env start timeout ?w'"
      using True poll_unparsable [OF less.prems(1)] by (subst waitLoop.simps) simp
    have due: "\<forall>(t, e) \<in> set (filter (\<lambda>(t, e). t < clock w + 500) (pending w)). \<not> touches_feedback e"
      using less.prems(2) by auto
    have idle: "\<forall>tx. read_file (files ?w') FEEDBACK_FILE = Some tx \<longrightarrow> JSON_parse env tx = None"
      using fold_events_untouched [OF due less.prems(1)] by simp
    have later: "\<forall>(t, e) \<in> set (pending ?w'). \<not> touches_feedback e"
      using less.prems(2) by auto
    have "nat (start + timeout - clock ?w') < nat (start + timeout - clock w)"
      using True by simp
    from less.hyps [OF this idle later] show ?thesis
      unfolding step .
  qed
qed

lemma ensureDir_os_carried_out:
  assumes "existsSync_dir fs \<or> mkdir_refused os = None"
  shows "ensureDir_os os fs = Return (ensureDir fs)"
  using assms by (auto simp: ensureDir_os_def ensureDir_def mkdirSync_os_def)

lemma ensureDir_os_refused:
  assumes "\<not> existsSync_dir fs" and "mkdir_refused os = Some code"
  shows "ensureDir_os os fs = Throw (FsError code)"
  using assms by (simp add: ensureDir_os_def mkdirSync_os_def)

lemma waitForFeedback_os_idle:
  assumes "\<forall>tx. read_file (files w) FEEDBACK_FILE = Some tx \<longrightarrow> JSON_parse env tx = None"
    and "\<forall>(t, e) \<in> set (pending w). \<not> touches_feedback e"
    and "existsSync_dir (files w) \<or> mkdir_refused os = None"
  shows "fst (waitForFeedback_os os env timeout w) = Return timeout_reply"
proof -
  let ?w1 = "w\<lparr>files := ensureDir (files w)\<rparr>"
  have "waitForFeedback_os os env timeout w = waitLoop env (clock ?w1) timeout ?w1"
    by (simp add: waitForFeedback_os_def ensureDir_os_carried_out [OF assms(3)] Let_def)
  moreover have "fst (waitLoop env (clock ?w1) timeout ?w1) = Return timeout_reply"
    by (rule waitLoop_idle) (use assms(1,2) in simp_all)
  ultimately show ?thesis by simp
qed

lemma stale_feedback_removed:
  assumes "unlink_refused os = None \<or> read_file (files w) FEEDBACK_FILE = None"
  shows "\<exists>fs1. (if existsSync (files w) FEEDBACK_FILE then unlinkSync_os os FEEDBACK_FILE (files w)
               else Return (files w)) = Return fs1
          \<and> read_file fs1 FEEDBACK_FILE = None
          \<and> existsSync_dir fs1 = existsSync_dir (files w)"
proof (cases "read_file (files w) FEEDBACK_FILE")
  case None
  then show ?thesis by (simp add: existsSync_def)
next
  case (Some old)
  from unlinkSync_present [OF Some] obtain ch where
    ch: "channel_dir (files w) = Some ch"
    and ul: "unlinkSync FEEDBACK_FILE (files w) = Return ((files w)\<lparr>channel_dir := Some (set_file FEEDBACK_FILE None ch)\<rparr>)"
    by blast
  from assms Some have "unlink_refused os = None" by simp
  with Some ch ul show ?thesis
    by (simp add: existsSync_def unlinkSync_os_def read_file_simps existsSync_dir_def)
qed

lemma executeTool_os_idle:
  assumes "\<forall>(t, e) \<in> set (pending w). \<not> touches_feedback e"
    and "unlink_refused os = None \<or> read_file (files w) FEEDBACK_FILE = None"
    and "mkdir_refused os = None"
    and "write_refused os = None"
  shows "fst (executeTool_os os env prompt w) = Return timeout_reply"
proof -
  let ?tx = "JSON_stringify env (request_json prompt (clock w))"
  from stale_feedback_removed [OF assms(2)] obtain fs1 where
    fs1: "(if existsSync (files w) FEEDBACK_FILE then unlinkSync_os os FEEDBACK_FILE (files w)
           else Return (files w)) = Return fs1"
    and a1: "read_file fs1 FEEDBACK_FILE = None"
    by blast
  have e1: "ensureDir_os os fs1 = Return (ensureDir fs1)"
    by (rule ensureDir_os_carried_out) (simp add: assms(3))
  from writeFileSync_ensureDir [of REQUEST_FILE ?tx fs1] obtain fs3 where
    fs3: "writeFileSync REQUEST_FILE ?tx (ensureDir fs1) = Return fs3"
    and rd: "\<forall>g. read_file fs3 g = (if g = REQUEST_FILE then Some ?tx else read_file fs1 g)"
    by blast
  have w3: "writeFileSync_os os REQUEST_FILE ?tx (ensureDir fs1) = Return fs3"
    by (simp add: writeFileSync_os_def assms(4) fs3)
  let ?w1 = "sleep env 500 (w\<lparr>files := fs3\<rparr>)"
  have run: "executeTool_os os env prompt w = waitForFeedback_os os env 300000 ?w1"
    unfolding executeTool_os_def fs1 by (simp add: e1 w3)
  have a3: "\<forall>tx. read_file fs3 FEEDBACK_FILE = Some tx \<longrightarrow> JSON_parse env tx = None"
    using rd a1 by simp
  have due: "\<forall>(t, e) \<in> set (filter (\<lambda>(t, e). t < clock w + 500) (pending w)). \<not> touches_feedback e"
    using assms(1) by auto
  have idle: "\<forall>tx. read_file (files ?w1) FEEDBACK_FILE = Some tx \<longrightarrow> JSON_parse env tx = None"
    using fold_events_untouched [OF due a3] by simp
  have later: "\<forall>(t, e) \<in> set (pending ?w1). \<not> touches_feedback e"
    using assms(1) by auto
  have "fst (waitForFeedback_os os env 300000 ?w1) = Return timeout_reply"
    by (rule waitForFeedback_os_idle [OF idle later]) (simp add: assms(3))
  then show ?thesis by (simp add: run)
qed

lemma waitForFeedback_os_no_refusals:
  "waitForFeedback_os no_refusals env timeout w = waitForFeedback env timeout w"
  by (simp add: waitForFeedback_os_def waitForFeedback_def ensureDir_os_carried_out no_refusals_def)

lemma executeTool_os_no_refusals:
  "executeTool_os no_refusals env prompt w = executeTool env prompt w"
proof -
  have u: "unlinkSync_os no_refusals FEEDBACK_FILE (files w) = unlinkSync FEEDBACK_FILE (files w)"
    by (simp add: unlinkSync_os_def no_refusals_def)
  have e: "\<And>fs. ensureDir_os no_refusals fs = Return (ensureDir fs)"
    by (rule ensureDir_os_carried_out) (simp add: no_refusals_def)
  have wr: "\<And>f tx fs. writeFileSync_os no_refusals f tx fs = writeFileSync f tx fs"
    by (simp add: writeFileSync_os_def no_refusals_def)
  show ?thesis
    unfolding executeTool_os_def executeTool_def u
    by (simp add: e wr waitForFeedback_os_no_refusals split: result.splits)
qed

section \<open>Responses and configuration\<close>

lemma truthy_responses [simp]:
  "truthy (error_response rid code m)" "truthy (result_response rid r)"
  by (simp_all add: error_response_def result_response_def)

lemma handle_returns:
  assumes "JSON_parse env msg = Some req" and "process env req (srv_world s) = (Return res, w')" and "truthy res"
  shows "handle env msg s = Return (s\<lparr>srv_world := w', stdout := stdout s @ [JSON_stringify env res @ [CHR 0x0A]]\<rparr>)"
  using assms by (simp add: handle_def parse_def)

lemma loadConfig_missing:
  "read_file fs CONFIG_FILE = None \<or> (\<exists>tx. read_file fs CONFIG_FILE = Some tx \<and> JSON_parse env tx = None)
     \<Longrightarrow> loadConfig env fs = DEFAULT_CONFIG"
  by (auto simp: loadConfig_def existsSync_def readFileSync_def parse_def)

lemma loadConfig_written:
  assumes "read_file fs CONFIG_FILE = Some tx" and "JSON_parse env tx = Some (config_json name descr ft)"
  shows "loadConfig env fs = \<lparr>toolName = JStr name, toolDescription = JStr descr, footer = JStr ft\<rparr>"
  using assms
  by (simp add: loadConfig_def existsSync_def readFileSync_def parse_def spread_field_def config_json_def)

section \<open>Lines and chunks\<close>

lemma split_go_nonempty [simp]: "split_go sep cur s \<noteq> []"
  by (induction sep cur s rule: split_go.induct) auto

lemma split_go_char:
  "split_go [n] cur (c # cs) = (if c = n then cur # split_go [n] [] cs else split_go [n] (cur @ [c]) cs)"
  by simp

lemma split_go_append:
  "split_go [n] cur (a @ b)
     = butlast (split_go [n] cur a) @ split_go [n] (last (split_go [n] cur a)) b"
proof (induction a arbitrary: cur)
  case Nil
  then show ?case by simp
next
  case (Cons c cs)
  show ?case
  proof (cases "c = n")
    case True
    then show ?thesis using Cons [of "[]"] by (simp del: split_go.simps add: split_go_char)
  next
    case False
    then show ?thesis using Cons [of "cur @ [c]"] by (simp del: split_go.simps add: split_go_char)
  qed
qed

lemma split_go_no_sep:
  "n \<notin> set x \<Longrightarrow> split_go [n] cur (x @ s) = split_go [n] (cur @ x) s"
  by (induction x arbitrary: cur) (auto simp del: split_go.simps simp add: split_go_char)

lemma split_go_pieces:
  "n \<notin> set cur \<Longrightarrow> l \<in> set (split_go [n] cur s) \<Longrightarrow> n \<notin> set l"
proof (induction s arbitrary: cur)
  case Nil
  then show ?case by simp
next
  case (Cons c cs)
  show ?case
  proof (cases "c = n")
    case True
    with Cons.prems have "l = cur \<or> l \<in> set (split_go [n] [] cs)"
      by (simp del: split_go.simps add: split_go_char)
    then show ?thesis using Cons.IH [of "[]"] Cons.prems(1) by auto
  next
    case False
    with Cons.prems have "l \<in> set (split_go [n] (cur @ [c]) cs)"
      by (simp del: split_go.simps add: split_go_char)
    then show ?thesis using Cons.IH [of "cur @ [c]"] Cons.prems(1) False by auto
  qed
qed

lemma pop_last_nonempty: "ls \<noteq> [] \<Longrightarrow> pop_last ls = last ls"
  by (cases ls) (simp_all add: pop_last_def)

lemma pop_last_split [simp]: "pop_last (split_go sep cur s) = last (split_go sep cur s)"
  by (simp add: pop_last_nonempty)

lemma last_line_no_newline: "n \<notin> set (last (split_go [n] [] s))"
  using split_go_pieces [of n "[]" "last (split_go [n] [] s)" s] by simp

lemma handle_buf:
  "handle env l (s\<lparr>buf := b\<rparr>) = rbind (handle env l s) (\<lambda>s'. Return (s'\<lparr>buf := b\<rparr>))"
  by (simp add: handle_def split: result.splits prod.splits)

lemma rbind_assoc: "rbind (rbind m f) g = rbind m (\<lambda>x. rbind (f x) g)"
  by (cases m) simp_all

lemma rbind_Return [simp]: "rbind m Return = m"
  by (cases m) simp_all

lemma handle_all_buf:
  "handle_all env ls (s\<lparr>buf := b\<rparr>) = rbind (handle_all env ls s) (\<lambda>s'. Return (s'\<lparr>buf := b\<rparr>))"
proof (induction ls arbitrary: s)
  case Nil
  then show ?case by simp
next
  case (Cons l ls)
  show ?case
    by (cases "handle env l s") (simp_all add: handle_buf Cons)
qed

lemma handle_all_append:
  "handle_all env (xs @ ys) s = rbind (handle_all env xs s) (handle_all env ys)"
proof (induction xs arbitrary: s)
  case Nil
  then show ?case by simp
next
  case (Cons x xs)
  show ?case by (cases "handle env x s") (simp_all add: Cons)
qed

lemma handle_all_set_buf:
  "rbind (handle_all env xs (s\<lparr>buf := b\<rparr>)) (\<lambda>s'. handle_all env ys (s'\<lparr>buf := b'\<rparr>))
     = handle_all env (xs @ ys) (s\<lparr>buf := b'\<rparr>)"
proof -
  have "rbind (handle_all env xs (s\<lparr>buf := b\<rparr>)) (\<lambda>s'. handle_all env ys (s'\<lparr>buf := b'\<rparr>))
        = rbind (handle_all env xs s) (\<lambda>s'. handle_all env ys (s'\<lparr>buf := b'\<rparr>))"
    by (cases "handle_all env xs s") (simp_all add: handle_all_buf [where s = s and b = b])
  also have "\<dots> = rbind (handle_all env xs (s\<lparr>buf := b'\<rparr>)) (handle_all env ys)"
    by (cases "handle_all env xs s") (simp_all add: handle_all_buf [where s = s and b = b'])
  finally show ?thesis by (simp add: handle_all_append)
qed

lemma onData_chunks:
  "rbind (onData env c1 s) (onData env c2) = onData env (c1 @ c2) s"
proof -
  let ?n = "CHR 0x0A"
  let ?l1 = "split_go [?n] [] (buf s @ c1)"
  let ?b1 = "last ?l1"
  let ?l2 = "split_go [?n] [] (?b1 @ c2)"
  have nb: "?n \<notin> set ?b1" by (rule last_line_no_newline)
  have whole: "split_go [?n] [] (buf s @ c1 @ c2) = butlast ?l1 @ ?l2"
    using split_go_append [of ?n "[]" "buf s @ c1" c2] split_go_no_sep [OF nb, of "[]" c2]
    by simp
  have bl: "butlast (butlast ?l1 @ ?l2) = butlast ?l1 @ butlast ?l2"
    by (simp add: butlast_append)
  have la: "last (butlast ?l1 @ ?l2) = last ?l2" by simp
  have od: "onData env c2
        = (\<lambda>s'. handle_all env (filter (\<lambda>l. trim l \<noteq> []) (butlast (split_go [?n] [] (buf s' @ c2))))
                     (s'\<lparr>buf := last (split_go [?n] [] (buf s' @ c2))\<rparr>))"
    by (rule ext) (simp add: onData_def str_split_def Let_def)
  have "rbind (onData env c1 s) (onData env c2)
        = rbind (handle_all env (filter (\<lambda>l. trim l \<noteq> []) (butlast ?l1)) (s\<lparr>buf := ?b1\<rparr>))
            (\<lambda>s'. handle_all env (filter (\<lambda>l. trim l \<noteq> []) (butlast (split_go [?n] [] (buf s' @ c2))))
                     (s'\<lparr>buf := last (split_go [?n] [] (buf s' @ c2))\<rparr>))"
    unfolding od by (simp add: onData_def str_split_def Let_def)
  also have "\<dots> = rbind (handle_all env (filter (\<lambda>l. trim l \<noteq> []) (butlast ?l1)) (s\<lparr>buf := ?b1\<rparr>))
            (\<lambda>s'. handle_all env (filter (\<lambda>l. trim l \<noteq> []) (butlast ?l2)) (s'\<lparr>buf := last ?l2\<rparr>))"
  proof -
    have "handle_all env (filter (\<lambda>l. trim l \<noteq> []) (butlast ?l1)) (s\<lparr>buf := ?b1\<rparr>)
          = rbind (handle_all env (filter (\<lambda>l. trim l \<noteq> []) (butlast ?l1)) s) (\<lambda>s'. Return (s'\<lparr>buf := ?b1\<rparr>))"
      by (rule handle_all_buf)
    then show ?thesis
      by (cases "handle_all env (filter (\<lambda>l. trim l \<noteq> []) (butlast ?l1)) s") simp_all
  qed
  also have "\<dots> = handle_all env (filter (\<lambda>l. trim l \<noteq> []) (butlast ?l1) @ filter (\<lambda>l. trim l \<noteq> []) (butlast ?l2))
                     (s\<lparr>buf := last ?l2\<rparr>)"
    by (rule handle_all_set_buf)
  also have "\<dots> = onData env (c1 @ c2) s"
    using whole bl la by (simp add: onData_def str_split_def Let_def pop_last_nonempty)
  finally show ?thesis .
qed

lemma onData_partial:
  assumes "CHR 0x0A \<notin> set (buf s)" and "CHR 0x0A \<notin> set chunk"
  shows "onData env chunk s = Return (s\<lparr>buf := buf s @ chunk\<rparr>)"
proof -
  have "split_go [CHR 0x0A] [] ((buf s @ chunk) @ []) = split_go [CHR 0x0A] ([] @ (buf s @ chunk)) []"
    by (rule split_go_no_sep) (use assms in simp)
  then have "split_go [CHR 0x0A] [] (buf s @ chunk) = [buf s @ chunk]" by simp
  then show ?thesis by (simp add: onData_def str_split_def Let_def pop_last_def)
qed


lemma two_lines_split:
  \<open>str_split (''{"jsonrpc":"2.0","id":1,"method":"tools/list"}'' @ [CHR 0x0A] @ ''{not valid json}'' @ [CHR 0x0A])
      [CHR 0x0A]
    = [''{"jsonrpc":"2.0","id":1,"method":"tools/list"}'', ''{not valid json}'', []]\<close>
  by code_simp

lemma two_lines_not_blank:
  \<open>trim ''{"jsonrpc":"2.0","id":1,"method":"tools/list"}'' \<noteq> []\<close>
  \<open>trim ''{not valid json}'' \<noteq> []\<close>
  by code_simp+

section \<open>Paths\<close>

lemma split_go_at_sep:
  "split_go [n] cur (a @ n # b) = split_go [n] cur a @ split_go [n] [] b"
  by (induction a arbitrary: cur) (simp_all del: split_go.simps(2) add: split_go_char)

lemma split_go_plain: "n \<notin> set x \<Longrightarrow> split_go [n] cur x = [cur @ x]"
  by (induction x arbitrary: cur) (auto simp del: split_go.simps(2) simp add: split_go_char)

lemma split_join_with:
  assumes "xs \<noteq> []" and "\<forall>x \<in> set xs. n \<notin> set x"
  shows "split_go [n] [] (join_with [n] xs) = xs"
  using assms
proof (induction "[n]" xs rule: join_with.induct)
  case 1
  then show ?case by simp
next
  case (2 x)
  then show ?case by (simp add: split_go_plain del: split_go.simps)
next
  case (3 x y ys)
  have "split_go [n] [] (x @ n # join_with [n] (y # ys)) = split_go [n] [] x @ split_go [n] [] (join_with [n] (y # ys))"
    by (rule split_go_at_sep)
  with 3 show ?case by (simp add: split_go_plain del: split_go.simps)
qed

lemma join_with_snoc:
  "xs \<noteq> [] \<Longrightarrow> join_with sep (xs @ [y]) = join_with sep xs @ sep @ y"
  by (induction sep xs rule: join_with.induct) simp_all

lemma join_with_Cons:
  "xs \<noteq> [] \<Longrightarrow> join_with sep (x # xs) = x @ sep @ join_with sep xs"
  by (cases xs) simp_all

lemma join_with_empty: "join_with sep xs = [] \<Longrightarrow> \<forall>x \<in> set xs. x \<noteq> [] \<Longrightarrow> xs = []"
  by (induction sep xs rule: join_with.induct) simp_all

lemma hd_join_with: "xs \<noteq> [] \<Longrightarrow> hd xs \<noteq> [] \<Longrightarrow> hd (join_with sep xs) = hd (hd xs)"
  by (induction sep xs rule: join_with.induct) simp_all

lemma join_with_nonempty: "xs \<noteq> [] \<Longrightarrow> last xs \<noteq> [] \<Longrightarrow> join_with sep xs \<noteq> []"
  by (induction sep xs rule: join_with.induct) simp_all

lemma last_join_with: "xs \<noteq> [] \<Longrightarrow> last xs \<noteq> [] \<Longrightarrow> last (join_with sep xs) = last (last xs)"
proof (induction sep xs rule: join_with.induct)
  case (3 sep x y ys)
  then have "join_with sep (y # ys) \<noteq> []"
    using join_with_nonempty [of "y # ys" sep] by simp
  with 3 show ?case by simp
qed simp_all


lemma norm_step_plain:
  "x \<noteq> [] \<Longrightarrow> x \<noteq> ''.'' \<Longrightarrow> x \<noteq> ''..'' \<Longrightarrow> norm_step ab res x = res @ [x]"
  by (simp add: norm_step_def)

lemma foldl_norm_plain:
  "\<forall>x \<in> set xs. x \<noteq> [] \<and> x \<noteq> ''.'' \<and> x \<noteq> ''..'' \<Longrightarrow> foldl (norm_step ab) res xs = res @ xs"
  by (induction xs arbitrary: res) (simp_all add: norm_step_plain)

lemma foldl_norm_dots:
  "res = [] \<or> last res = ''..'' \<Longrightarrow> foldl (norm_step True) res (replicate k ''..'') = res @ replicate k ''..''"
proof (induction k arbitrary: res)
  case 0
  then show ?case by simp
next
  case (Suc k)
  from Suc.prems have "norm_step True res ''..'' = res @ [''..'']"
    by (auto simp: norm_step_def)
  moreover have "foldl (norm_step True) (res @ [''..'']) (replicate k ''..'') = (res @ [''..'']) @ replicate k ''..''"
    by (rule Suc.IH) simp
  ultimately show ?case by simp
qed

lemma norm_stack_fixed:
  assumes "\<forall>x \<in> set P. x \<noteq> [] \<and> x \<noteq> ''.'' \<and> x \<noteq> ''..''" and "\<not> ab \<longrightarrow> k = 0"
  shows "foldl (norm_step ab) [] (replicate k ''..'' @ P) = replicate k ''..'' @ P"
proof (cases "k = 0")
  case True
  with assms(1) show ?thesis by (simp add: foldl_norm_plain)
next
  case False
  with assms(2) have ab by blast
  then have "foldl (norm_step ab) [] (replicate k ''..'') = replicate k ''..''"
    using foldl_norm_dots [of "[]" k] by simp
  with assms(1) show ?thesis by (simp add: foldl_norm_plain)
qed

lemma norm_stack_form:
  assumes "\<forall>x \<in> set P. x \<noteq> [] \<and> x \<noteq> ''.'' \<and> x \<noteq> ''..'' \<and> CHR ''/'' \<notin> set x"
    and "\<not> ab \<longrightarrow> k = 0"
    and "\<forall>s \<in> set S. CHR ''/'' \<notin> set s"
  shows "\<exists>k' P'. foldl (norm_step ab) (replicate k ''..'' @ P) S = replicate k' ''..'' @ P'
           \<and> (\<forall>x \<in> set P'. x \<noteq> [] \<and> x \<noteq> ''.'' \<and> x \<noteq> ''..'' \<and> CHR ''/'' \<notin> set x)
           \<and> (\<not> ab \<longrightarrow> k' = 0)"
  using assms
proof (induction S arbitrary: k P)
  case Nil
  then show ?case by auto
next
  case (Cons s S)
  let ?res = "replicate k ''..'' @ P"
  have "\<exists>k1 P1. norm_step ab ?res s = replicate k1 ''..'' @ P1
           \<and> (\<forall>x \<in> set P1. x \<noteq> [] \<and> x \<noteq> ''.'' \<and> x \<noteq> ''..'' \<and> CHR ''/'' \<notin> set x)
           \<and> (\<not> ab \<longrightarrow> k1 = 0)"
  proof -
    consider (skip) "s = [] \<or> s = ''.''" | (up) "s = ''..''" | (plain) "s \<noteq> []" "s \<noteq> ''.''" "s \<noteq> ''..''"
      by blast
    then show ?thesis
    proof cases
      case skip
      then have "norm_step ab ?res s = ?res" by (auto simp: norm_step_def)
      with Cons.prems(1,2) show ?thesis by blast
    next
      case up
      show ?thesis
      proof (cases "P = []")
        case True
        show ?thesis
        proof (cases ab)
          case True
          have "last (replicate k ''..'') = ''..''" if "k \<noteq> 0"
            using that by (simp add: last_replicate)
          with up True have "norm_step ab ?res s = replicate (Suc k) ''..'' @ []"
            using \<open>P = []\<close> by (auto simp: norm_step_def replicate_append_same)
          then show ?thesis using True by (intro exI [of _ "Suc k"] exI [of _ "[]"]) simp
        next
          case False
          have "last (replicate k ''..'') = ''..''" if "k \<noteq> 0"
            using that by (simp add: last_replicate)
          with up False have "norm_step ab ?res s = ?res"
            using \<open>P = []\<close> by (auto simp: norm_step_def)
          with Cons.prems(1,2) show ?thesis by blast
        qed
      next
        case False
        with Cons.prems(1) have "last ?res \<noteq> ''..''" by simp
        with up False have "norm_step ab ?res s = replicate k ''..'' @ butlast P"
          by (simp add: norm_step_def butlast_append)
        moreover have "\<forall>x \<in> set (butlast P). x \<noteq> [] \<and> x \<noteq> ''.'' \<and> x \<noteq> ''..'' \<and> CHR ''/'' \<notin> set x"
          using Cons.prems(1) by (auto dest: in_set_butlastD)
        ultimately show ?thesis using Cons.prems(2) by blast
      qed
    next
      case plain
      then have "norm_step ab ?res s = replicate k ''..'' @ (P @ [s])"
        by (simp add: norm_step_def)
      moreover have "\<forall>x \<in> set (P @ [s]). x \<noteq> [] \<and> x \<noteq> ''.'' \<and> x \<noteq> ''..'' \<and> CHR ''/'' \<notin> set x"
        using Cons.prems(1,3) plain by simp
      ultimately show ?thesis using Cons.prems(2) by blast
    qed
  qed
  then obtain k1 P1 where
    st: "norm_step ab ?res s = replicate k1 ''..'' @ P1"
    and p1: "\<forall>x \<in> set P1. x \<noteq> [] \<and> x \<noteq> ''.'' \<and> x \<noteq> ''..'' \<and> CHR ''/'' \<notin> set x"
    and k1: "\<not> ab \<longrightarrow> k1 = 0"
    by blast
  from Cons.prems(3) have "\<forall>s \<in> set S. CHR ''/'' \<notin> set s" by simp
  from Cons.IH [OF p1 k1 this] show ?case by (simp add: st)
qed

lemma normalized_stack:
  "\<exists>k P. foldl (norm_step ab) [] (str_split t ''/'') = replicate k ''..'' @ P
       \<and> (\<forall>x \<in> set P. x \<noteq> [] \<and> x \<noteq> ''.'' \<and> x \<noteq> ''..'' \<and> CHR ''/'' \<notin> set x)
       \<and> (\<not> ab \<longrightarrow> k = 0)"
proof -
  have "\<forall>s \<in> set (str_split t ''/''). CHR ''/'' \<notin> set s"
    using split_go_pieces [of "CHR ''/''" "[]" _ t] by (auto simp: str_split_def)
  from norm_stack_form [of "[]" ab 0, OF _ _ this] show ?thesis by simp
qed


lemma path_join_plain:
  assumes "X \<noteq> []"
    and "\<forall>x \<in> set X. x \<noteq> [] \<and> x \<noteq> ''.'' \<and> x \<noteq> ''..'' \<and> CHR ''/'' \<notin> set x"
  shows "path_join (t # X)
       = (if t \<noteq> [] \<and> hd t = CHR ''/'' then ''/'' else [])
         @ join_with ''/''
             (foldl (norm_step (\<not> (t \<noteq> [] \<and> hd t = CHR ''/''))) []
                (if t = [] then [] else str_split t ''/'') @ X)"
proof -
  have plain: "\<forall>x \<in> set X. x \<noteq> [] \<and> x \<noteq> ''.'' \<and> x \<noteq> ''..''"
    and noslash: "\<forall>x \<in> set X. CHR ''/'' \<notin> set x"
    using assms(2) by simp_all
  have keep: "filter (\<lambda>arg. arg \<noteq> []) X = X"
    using plain by (simp add: filter_id_conv)
  have lastX: "last X \<noteq> []" "hd X \<noteq> []"
    using assms(1) plain by simp_all
  have JX: "join_with ''/'' X \<noteq> []"
    using assms(1) lastX(1) by (rule join_with_nonempty)
  have lastJ: "last (join_with ''/'' X) \<noteq> CHR ''/''"
  proof -
    have "last (join_with ''/'' X) = last (last X)"
      using assms(1) lastX(1) by (rule last_join_with)
    moreover have "last (last X) \<in> set (last X)" using lastX(1) by simp
    moreover have "CHR ''/'' \<notin> set (last X)" using noslash assms(1) by simp
    ultimately show ?thesis by metis
  qed
  have hdJ: "hd (join_with ''/'' X) \<noteq> CHR ''/''"
  proof -
    have "hd (join_with ''/'' X) = hd (hd X)"
      using assms(1) lastX(2) by (rule hd_join_with)
    moreover have "hd (hd X) \<in> set (hd X)" using lastX(2) by simp
    moreover have "CHR ''/'' \<notin> set (hd X)" using noslash assms(1) by simp
    ultimately show ?thesis by metis
  qed
  have splitX: "split_go ''/'' [] (join_with ''/'' X) = X"
    using split_join_with [OF assms(1), of "CHR ''/''"] noslash by simp
  show ?thesis
  proof (cases "t = []")
    case True
    obtain x xs where X: "X = x # xs" using assms(1) by (cases X) auto
    have "path_join (t # X) = path_normalize (join_with ''/'' X)"
      using True keep by (simp add: path_join_def X)
    moreover have "normalizeString (join_with ''/'' X) True = join_with ''/'' X"
      using splitX plain by (simp add: normalizeString_def str_split_def foldl_norm_plain)
    ultimately show ?thesis
      using True JX hdJ lastJ by (simp add: path_normalize_def Let_def)
  next
    case False
    let ?J = "t @ ''/'' @ join_with ''/'' X"
    let ?abs = "hd t = CHR ''/''"
    let ?R = "foldl (norm_step (\<not> ?abs)) [] (str_split t ''/'')"
    have "path_join (t # X) = path_normalize (join_with ''/'' (t # X))"
      using False keep by (simp add: path_join_def)
    then have pj: "path_join (t # X) = path_normalize ?J"
      using assms(1) by (simp add: join_with_Cons)
    have hd: "hd ?J = hd t" using False by simp
    have last: "last ?J \<noteq> CHR ''/''" using JX lastJ by simp
    have "split_go ''/'' [] ?J = split_go ''/'' [] t @ split_go ''/'' [] (join_with ''/'' X)"
      using split_go_at_sep [of "CHR ''/''" "[]" t "join_with ''/'' X"] by simp
    then have sp: "str_split ?J ''/'' = str_split t ''/'' @ X"
      by (simp add: str_split_def splitX)
    have ns: "normalizeString ?J (\<not> ?abs) = join_with ''/'' (?R @ X)"
      unfolding normalizeString_def sp using plain by (simp add: foldl_norm_plain)
    have ne: "join_with ''/'' (?R @ X) \<noteq> []"
      by (rule join_with_nonempty) (use assms(1) lastX in simp_all)
    show ?thesis
      unfolding pj using False hd last ns ne
      by (simp add: path_normalize_def Let_def)
  qed
qed

lemma path_join_under:
  assumes X: "X \<noteq> []"
    "\<forall>x \<in> set X. x \<noteq> [] \<and> x \<noteq> ''.'' \<and> x \<noteq> ''..'' \<and> CHR ''/'' \<notin> set x"
    and y: "y \<noteq> []" "y \<noteq> ''.''" "y \<noteq> ''..''" "CHR ''/'' \<notin> set y"
  shows "path_join [path_join (t # X), y] = path_join (t # X) @ ''/'' @ y"
proof -
  define ab where "ab = (t \<noteq> [] \<and> hd t = CHR ''/'')"
  define R where "R = foldl (norm_step (\<not> ab)) [] (if t = [] then [] else str_split t ''/'')"
  define pre where "pre = (if ab then ''/'' else [])"
  define S where "S = R @ X"
  define D where "D = pre @ join_with ''/'' S"
  have DD: "path_join (t # X) = D"
    unfolding D_def S_def pre_def R_def ab_def by (rule path_join_plain [OF X])
  have "\<exists>k P. R = replicate k ''..'' @ P
          \<and> (\<forall>x \<in> set P. x \<noteq> [] \<and> x \<noteq> ''.'' \<and> x \<noteq> ''..'' \<and> CHR ''/'' \<notin> set x)
          \<and> (ab \<longrightarrow> k = 0)"
  proof (cases "t = []")
    case True
    then have "R = []" by (simp add: R_def)
    then show ?thesis by (intro exI [of _ 0] exI [of _ "[]"]) simp
  next
    case False
    then have "R = foldl (norm_step (\<not> ab)) [] (str_split t ''/'')" by (simp add: R_def)
    then show ?thesis using normalized_stack [of "\<not> ab" t] by (simp only: not_not)
  qed
  then obtain k P where
    R: "R = replicate k ''..'' @ P"
    and P: "\<forall>x \<in> set P. x \<noteq> [] \<and> x \<noteq> ''.'' \<and> x \<noteq> ''..'' \<and> CHR ''/'' \<notin> set x"
    and k: "ab \<longrightarrow> k = 0"
    by blast
  have S_ne: "S \<noteq> []" using X(1) by (simp add: S_def)
  have R_seg: "\<forall>x \<in> set R. x \<noteq> [] \<and> CHR ''/'' \<notin> set x"
  proof
    fix x
    assume "x \<in> set R"
    then have "x = ''..'' \<or> x \<in> set P" by (simp add: R) blast
    then show "x \<noteq> [] \<and> CHR ''/'' \<notin> set x"
    proof
      assume "x = ''..''"
      then show ?thesis by simp
    next
      assume "x \<in> set P"
      with P show ?thesis by simp
    qed
  qed
  have S_seg: "\<forall>x \<in> set S. x \<noteq> [] \<and> CHR ''/'' \<notin> set x"
    unfolding S_def using R_seg X(2) by auto
  have lastS: "last S \<noteq> []" using X by (simp add: S_def)
  have J_ne: "join_with ''/'' S \<noteq> []"
    using S_ne lastS by (rule join_with_nonempty)
  have "hd S \<in> set S" using S_ne by (rule hd_in_set)
  with S_seg have "hd S \<noteq> [] \<and> CHR ''/'' \<notin> set (hd S)" by (rule bspec)
  then have hdS: "hd S \<noteq> []" "CHR ''/'' \<notin> set (hd S)" by simp_all
  have hdJ: "hd (join_with ''/'' S) \<noteq> CHR ''/''"
  proof -
    have "hd (join_with ''/'' S) = hd (hd S)"
      using S_ne hdS(1) by (rule hd_join_with)
    moreover have "hd (hd S) \<in> set (hd S)" using hdS(1) by simp
    ultimately show ?thesis using hdS(2) by auto
  qed
  have D_ne: "D \<noteq> []" using J_ne by (simp add: D_def)
  have hdD: "(D \<noteq> [] \<and> hd D = CHR ''/'') = ab"
  proof (cases ab)
    case True
    then show ?thesis by (simp add: D_def pre_def)
  next
    case False
    then show ?thesis using hdJ by (simp add: D_def pre_def)
  qed
  have splitS: "split_go ''/'' [] (join_with ''/'' S) = S"
    using split_join_with [OF S_ne, of "CHR ''/''"] S_seg by simp
  have fixed: "foldl (norm_step (\<not> ab)) [] S = S"
  proof -
    have "foldl (norm_step (\<not> ab)) [] (replicate k ''..'' @ (P @ X)) = replicate k ''..'' @ (P @ X)"
      by (rule norm_stack_fixed) (use P X(2) k in auto)
    then show ?thesis by (simp add: S_def R)
  qed
  have stack: "foldl (norm_step (\<not> ab)) [] (str_split D ''/'') = S"
  proof (cases ab)
    case True
    have "split_go ''/'' [] ([] @ CHR ''/'' # join_with ''/'' S)
          = split_go ''/'' [] [] @ split_go ''/'' [] (join_with ''/'' S)"
      by (rule split_go_at_sep)
    then have "split_go ''/'' [] (CHR ''/'' # join_with ''/'' S) = [] # S"
      by (simp add: splitS del: split_go.simps(2))
    with True have "str_split D ''/'' = [] # S"
      by (simp add: str_split_def D_def pre_def del: split_go.simps(2))
    then show ?thesis using fixed by (simp add: norm_step_def)
  next
    case False
    then have "str_split D ''/'' = S"
      by (simp add: str_split_def D_def pre_def splitS del: split_go.simps(2))
    then show ?thesis using fixed by simp
  qed
  have "path_join [D, y]
       = (if D \<noteq> [] \<and> hd D = CHR ''/'' then ''/'' else [])
         @ join_with ''/''
             (foldl (norm_step (\<not> (D \<noteq> [] \<and> hd D = CHR ''/''))) []
                (if D = [] then [] else str_split D ''/'') @ [y])"
    by (rule path_join_plain) (use y in simp_all)
  also have "\<dots> = pre @ join_with ''/'' (S @ [y])"
    unfolding hdD using D_ne stack by (simp add: pre_def)
  also have "\<dots> = D @ ''/'' @ y"
    using join_with_snoc [OF S_ne, of "''/''" y] by (simp add: D_def)
  finally show ?thesis unfolding DD .
qed


section \<open>Instance identifiers\<close>

lemma hex_digit_inj:
  assumes "a < 16" and "b < 16" and "hex_digit a = hex_digit b"
  shows "a = b"
proof -
  have "of_char (hex_digit a) = (of_char (hex_digit b) :: nat)" using assms(3) by simp
  with assms(1,2) show ?thesis
    by (auto simp: hex_digit_def split: if_splits)
qed

lemma hex_byte_inj: "hex_byte a = hex_byte b \<Longrightarrow> a = b"
proof -
  assume h: "hex_byte a = hex_byte b"
  have la: "unat a < 256" and lb: "unat b < 256"
    using unsigned_less [of a] unsigned_less [of b] by simp_all
  from h have d: "hex_digit (unat a div 16) = hex_digit (unat b div 16)"
    and m: "hex_digit (unat a mod 16) = hex_digit (unat b mod 16)"
    by (simp_all add: hex_byte_def)
  have "unat a div 16 = unat b div 16"
    by (rule hex_digit_inj [OF _ _ d]) (use la lb in simp_all)
  moreover have "unat a mod 16 = unat b mod 16"
    by (rule hex_digit_inj [OF _ _ m]) simp_all
  ultimately have "unat a = unat b"
    by (metis div_mult_mod_eq)
  then show "a = b" by (simp add: word_unat_eq_iff)
qed

lemma toString_hex_inj: "toString_hex as = toString_hex bs \<Longrightarrow> as = bs"
proof (induction as arbitrary: bs)
  case Nil
  then show ?case by (cases bs) (simp_all add: toString_hex_def hex_byte_def)
next
  case (Cons a as)
  show ?case
  proof (cases bs)
    case Nil
    with Cons.prems show ?thesis by (simp add: toString_hex_def hex_byte_def)
  next
    case (Cons b bs')
    with Cons.prems have "hex_byte a @ toString_hex as = hex_byte b @ toString_hex bs'"
      by (simp add: toString_hex_def)
    moreover have "length (hex_byte a) = length (hex_byte b)" by (simp add: hex_byte_def)
    ultimately have "hex_byte a = hex_byte b" "toString_hex as = toString_hex bs'" by simp_all
    with Cons.IH [of bs'] Cons show ?thesis by (simp add: hex_byte_inj)
  qed
qed

lemma length_toString_hex: "length (toString_hex bs) = 2 * length bs"
  by (induction bs) (simp_all add: toString_hex_def hex_byte_def)

lemma path_join_examples:
  "path_join [''/tmp'', ''.autotester'', ''0a1b2c3d4e5f6071''] = ''/tmp/.autotester/0a1b2c3d4e5f6071''"
  "path_join [''/'', ''.autotester'', ''0a1b2c3d4e5f6071''] = ''/.autotester/0a1b2c3d4e5f6071''"
  "path_join [''/var/tmp/../run//x/.'', ''.autotester''] = ''/var/run/x/.autotester''"
  "path_join [[], ''.autotester''] = ''.autotester''"
  "path_join [''/tmp/.autotester/0a1b2c3d4e5f6071'', ''images''] = ''/tmp/.autotester/0a1b2c3d4e5f6071/images''"
  by code_simp+

lemma hex_digit_no_slash: "n < 16 \<Longrightarrow> hex_digit n \<noteq> CHR ''/''"
proof
  assume n: "n < 16" and "hex_digit n = CHR ''/''"
  then have "of_char (hex_digit n) = (of_char (CHR ''/'') :: nat)" by simp
  with n show False by (auto simp: hex_digit_def split: if_splits)
qed

lemma toString_hex_no_slash: "CHR ''/'' \<notin> set (toString_hex bs)"
proof (induction bs)
  case Nil
  then show ?case by (simp add: toString_hex_def)
next
  case (Cons b bs)
  have "unat b < 256" using unsigned_less [of b] by simp
  then have "unat b div 16 < 16" by simp
  then have "hex_digit (unat b div 16) \<noteq> CHR ''/''" by (rule hex_digit_no_slash)
  moreover have "hex_digit (unat b mod 16) \<noteq> CHR ''/''" by (rule hex_digit_no_slash) simp
  ultimately show ?case using Cons by (auto simp: toString_hex_def hex_byte_def)
qed

lemma INSTANCE_ID_plain:
  assumes "length (randomBytes8 se) = 8"
  shows "INSTANCE_ID se \<noteq> [] \<and> INSTANCE_ID se \<noteq> ''.'' \<and> INSTANCE_ID se \<noteq> ''..''
       \<and> CHR ''/'' \<notin> set (INSTANCE_ID se)"
proof -
  have "length (INSTANCE_ID se) = 16"
    using assms by (simp add: INSTANCE_ID_def length_toString_hex)
  then have "INSTANCE_ID se \<noteq> []" "INSTANCE_ID se \<noteq> ''.''" "INSTANCE_ID se \<noteq> ''..''"
    by auto
  then show ?thesis by (simp add: INSTANCE_ID_def toString_hex_no_slash)
qed

lemma FEEDBACK_DIR_eq:
  "\<exists>base. \<forall>se. length (randomBytes8 se) = 8 \<longrightarrow> FEEDBACK_DIR se = base (tmpdir se) @ INSTANCE_ID se"
proof (intro exI allI impI)
  fix se :: session
  assume l: "length (randomBytes8 se) = 8"
  let ?t = "tmpdir se"
  let ?R = "foldl (norm_step (\<not> (?t \<noteq> [] \<and> hd ?t = CHR ''/''))) []
                (if ?t = [] then [] else str_split ?t ''/'')"
  from INSTANCE_ID_plain [OF l]
  have "FEEDBACK_DIR se
       = (if ?t \<noteq> [] \<and> hd ?t = CHR ''/'' then ''/'' else [])
         @ join_with ''/'' (?R @ [''.autotester'', INSTANCE_ID se])"
    unfolding FEEDBACK_DIR_def by (intro path_join_plain) simp_all
  also have "join_with ''/'' (?R @ [''.autotester'', INSTANCE_ID se])
       = join_with ''/'' (?R @ [''.autotester'']) @ ''/'' @ INSTANCE_ID se"
    using join_with_snoc [of "?R @ [''.autotester'']" "''/''" "INSTANCE_ID se"] by simp
  finally show "FEEDBACK_DIR se
       = (\<lambda>t. (if t \<noteq> [] \<and> hd t = CHR ''/'' then ''/'' else [])
                @ join_with ''/'' (foldl (norm_step (\<not> (t \<noteq> [] \<and> hd t = CHR ''/''))) []
                                     (if t = [] then [] else str_split t ''/'') @ [''.autotester''])
                @ ''/'') ?t
         @ INSTANCE_ID se"
    by simp
qed

lemma ctl_name_plain:
  "ctl_name f \<noteq> [] \<and> ctl_name f \<noteq> ''.'' \<and> ctl_name f \<noteq> ''..'' \<and> CHR ''/'' \<notin> set (ctl_name f)"
  by (cases f) simp_all

lemma ctl_path_eq:
  assumes "length (randomBytes8 se) = 8"
  shows "ctl_path se f = FEEDBACK_DIR se @ ''/'' @ ctl_name f"
  unfolding ctl_path_def FEEDBACK_DIR_def
  using INSTANCE_ID_plain [OF assms] ctl_name_plain [of f]
  by (intro path_join_under) simp_all


section \<open>Consuming a request\<close>

text \<open>
  C2, as the code has it. When the request file exists and its text parses,
  \<open>checkForRequest\<close> returns the parsed payload and deletes the file, leaving the other
  control files alone, and a second call right after it returns "no message" (\<open>null\<close>) and
  changes nothing. When the file is absent it returns "no message", not an error. When the
  file exists and its text does not parse, it returns "no message" and leaves the file
  where it is. On the other side, a turn of the wait loop that finds a feedback message
  with text or images takes it and deletes the file, so that the next turn finds nothing;
  without a feedback file it finds nothing.
\<close>

theorem checkForRequest_consume:
  "(\<forall>tx v. read_file fs REQUEST_FILE = Some tx \<longrightarrow> JSON_parse env tx = Some v \<longrightarrow>
        fst (checkForRequest env fs) = v
      \<and> read_file (snd (checkForRequest env fs)) REQUEST_FILE = None
      \<and> read_file (snd (checkForRequest env fs)) FEEDBACK_FILE = read_file fs FEEDBACK_FILE
      \<and> read_file (snd (checkForRequest env fs)) CONFIG_FILE = read_file fs CONFIG_FILE
      \<and> checkForRequest env (snd (checkForRequest env fs)) = (JNull, snd (checkForRequest env fs)))
   \<and> (read_file fs REQUEST_FILE = None \<longrightarrow> checkForRequest env fs = (JNull, fs))
   \<and> (\<forall>tx. read_file fs REQUEST_FILE = Some tx \<longrightarrow> JSON_parse env tx = None \<longrightarrow>
        checkForRequest env fs = (JNull, fs))
   \<and> (\<forall>tx T is t ft. read_file fs FEEDBACK_FILE = Some tx \<longrightarrow>
        JSON_parse env tx = Some (feedback_json T is t) \<longrightarrow> (T \<noteq> [] \<or> is \<noteq> []) \<longrightarrow>
        template (footer (loadConfig env fs)) = Some ft \<longrightarrow>
        (\<exists>blocks. fst (poll env fs) = Return (Some blocks))
      \<and> read_file (snd (poll env fs)) FEEDBACK_FILE = None
      \<and> poll env (snd (poll env fs)) = (Return None, snd (poll env fs)))
   \<and> (read_file fs FEEDBACK_FILE = None \<longrightarrow> poll env fs = (Return None, fs))"
proof (intro conjI allI impI)
  fix tx v
  assume rd: "read_file fs REQUEST_FILE = Some tx" and p: "JSON_parse env tx = Some v"
  from unlinkSync_present [OF rd] obtain ch where
    ch: "channel_dir fs = Some ch"
    and ul: "unlinkSync REQUEST_FILE fs = Return (fs\<lparr>channel_dir := Some (set_file REQUEST_FILE None ch)\<rparr>)"
    by blast
  have c: "checkForRequest env fs = (v, fs\<lparr>channel_dir := Some (set_file REQUEST_FILE None ch)\<rparr>)"
    using rd p ul by (simp add: checkForRequest_def existsSync_def readFileSync_def parse_def)
  show "fst (checkForRequest env fs) = v" by (simp add: c)
  show "read_file (snd (checkForRequest env fs)) REQUEST_FILE = None"
    by (simp add: c read_file_simps)
  show "read_file (snd (checkForRequest env fs)) FEEDBACK_FILE = read_file fs FEEDBACK_FILE"
    by (simp add: c read_file_simps) (simp add: read_file_def ch)
  show "read_file (snd (checkForRequest env fs)) CONFIG_FILE = read_file fs CONFIG_FILE"
    by (simp add: c read_file_simps) (simp add: read_file_def ch)
  have "checkForRequest env (fs\<lparr>channel_dir := Some (set_file REQUEST_FILE None ch)\<rparr>)
        = (JNull, fs\<lparr>channel_dir := Some (set_file REQUEST_FILE None ch)\<rparr>)"
    by (simp add: checkForRequest_def existsSync_def read_file_simps)
  then show "checkForRequest env (snd (checkForRequest env fs)) = (JNull, snd (checkForRequest env fs))"
    by (simp add: c)
next
  assume "read_file fs REQUEST_FILE = None"
  then show "checkForRequest env fs = (JNull, fs)"
    by (simp add: checkForRequest_def existsSync_def)
next
  fix tx
  assume "read_file fs REQUEST_FILE = Some tx" and "JSON_parse env tx = None"
  then show "checkForRequest env fs = (JNull, fs)"
    by (simp add: checkForRequest_def existsSync_def readFileSync_def parse_def)
next
  fix tx T "is" t ft
  assume a: "read_file fs FEEDBACK_FILE = Some tx" "JSON_parse env tx = Some (feedback_json T is t)"
    "T \<noteq> [] \<or> is \<noteq> []" "template (footer (loadConfig env fs)) = Some ft"
  from poll_message [OF a] obtain suf blocks fs' where
    p: "poll env fs = (Return (Some (TextBlock (T @ suf @ ft) # blocks)), fs')"
    and gone: "read_file fs' FEEDBACK_FILE = None"
    by blast
  show "\<exists>blocks. fst (poll env fs) = Return (Some blocks)" by (simp add: p)
  show "read_file (snd (poll env fs)) FEEDBACK_FILE = None" by (simp add: p gone)
  show "poll env (snd (poll env fs)) = (Return None, snd (poll env fs))"
    by (simp add: p poll_absent [OF gone])
next
  assume "read_file fs FEEDBACK_FILE = None"
  then show "poll env fs = (Return None, fs)" by (rule poll_absent)
qed

theorem checkForRequest_consume_witness:
  \<open>read_file \<lparr>channel_dir = Some (empty_channel\<lparr>request_file := Some ''{"prompt":"Added the login form","timestamp":5}''\<rparr>),
               rm_denied = False\<rparr> REQUEST_FILE
     = Some ''{"prompt":"Added the login form","timestamp":5}''
   \<and> JSON_parse (table_env [(''{"prompt":"Added the login form","timestamp":5}'', request_json ''Added the login form'' 5)])
        ''{"prompt":"Added the login form","timestamp":5}''
     = Some (request_json ''Added the login form'' 5)
   \<and> fst (checkForRequest
            (table_env [(''{"prompt":"Added the login form","timestamp":5}'', request_json ''Added the login form'' 5)])
            \<lparr>channel_dir = Some (empty_channel\<lparr>request_file := Some ''{"prompt":"Added the login form","timestamp":5}''\<rparr>),
              rm_denied = False\<rparr>)
     = request_json ''Added the login form'' 5
   \<and> read_file (snd (checkForRequest
            (table_env [(''{"prompt":"Added the login form","timestamp":5}'', request_json ''Added the login form'' 5)])
            \<lparr>channel_dir = Some (empty_channel\<lparr>request_file := Some ''{"prompt":"Added the login form","timestamp":5}''\<rparr>),
              rm_denied = False\<rparr>)) REQUEST_FILE
     = None\<close>
proof -
  let ?env = \<open>table_env [(''{"prompt":"Added the login form","timestamp":5}'', request_json ''Added the login form'' 5)]\<close>
  let ?fs = \<open>\<lparr>channel_dir = Some (empty_channel\<lparr>request_file := Some ''{"prompt":"Added the login form","timestamp":5}''\<rparr>),
              rm_denied = False\<rparr>\<close>
  have rd: \<open>read_file ?fs REQUEST_FILE = Some ''{"prompt":"Added the login form","timestamp":5}''\<close>
    by (simp add: read_file_def)
  have p: \<open>JSON_parse ?env ''{"prompt":"Added the login form","timestamp":5}'' = Some (request_json ''Added the login form'' 5)\<close>
    by (simp add: table_env_def)
  from checkForRequest_consume [of ?fs ?env] rd p
  have "fst (checkForRequest ?env ?fs) = request_json ''Added the login form'' 5
      \<and> read_file (snd (checkForRequest ?env ?fs)) REQUEST_FILE = None"
    by blast
  with rd p show ?thesis by blast
qed

text \<open>
  C2 as stated fails for a request file that holds text \<open>JSON.parse\<close> rejects: the file is
  found present, yet it is not deleted and no payload is returned.
\<close>

theorem checkForRequest_malformed_stays:
  "existsSync \<lparr>channel_dir = Some (empty_channel\<lparr>request_file := Some ''{not valid json}''\<rparr>), rm_denied = False\<rparr> REQUEST_FILE
   \<and> checkForRequest (table_env [])
        \<lparr>channel_dir = Some (empty_channel\<lparr>request_file := Some ''{not valid json}''\<rparr>), rm_denied = False\<rparr>
     = (JNull, \<lparr>channel_dir = Some (empty_channel\<lparr>request_file := Some ''{not valid json}''\<rparr>), rm_denied = False\<rparr>)"
  by (simp add: checkForRequest_def existsSync_def read_file_def readFileSync_def parse_def table_env_def empty_channel_def)

section \<open>Shutdown\<close>

text \<open>
  C9: \<open>deactivate\<close> never raises, whatever is left of the channel directory (all of it,
  some of its files, nothing) and whether or not the removal is refused; calling it twice
  in a row raises nothing and leaves what the first call left. The same holds for the
  \<open>copilot-autotester\<close> copy, which removes nothing.
\<close>

theorem deactivate_tolerant:
  "(\<exists>fs'. deactivate fs = Return fs')
   \<and> rbind (deactivate fs) deactivate = deactivate fs
   \<and> deactivate fs = Return (if rm_denied fs then fs else fs\<lparr>channel_dir := None\<rparr>)
   \<and> ca_deactivate fs = Return fs
   \<and> rbind (ca_deactivate fs) ca_deactivate = ca_deactivate fs"
  by (cases "channel_dir fs") (auto simp: deactivate_def ca_deactivate_def existsSync_dir_def rmSync_def)

section \<open>Blank submissions\<close>

text \<open>
  C10: a submission whose text is empty or white space only and whose image list is
  absent or empty changes nothing: no feedback file is written, the store, the tracked
  messages and the pending promise stay as they are, and nothing is posted to the webview.
  This holds for the provider of \<open>src/src\<close> and for the one of \<open>copilot-autotester\<close>.
\<close>

theorem handleFeedbackSubmit_blank_noop:
  assumes "trim text = []" and "images = None \<or> images = Some []"
  shows "handleFeedbackSubmit env text images st = Return st
       \<and> ca_handleFeedbackSubmit env text images st = Return st"
  using assms by (simp add: handleFeedbackSubmit_def ca_handleFeedbackSubmit_def)

lemma trim_blank_example: "trim ('' '' @ [CHR 0x09, CHR 0x0A] @ ''  '') = []"
  by code_simp

theorem handleFeedbackSubmit_blank_noop_witness:
  "trim ('' '' @ [CHR 0x09, CHR 0x0A] @ ''  '') = []
   \<and> handleFeedbackSubmit (table_env []) ('' '' @ [CHR 0x09, CHR 0x0A] @ ''  '') (Some [])
        \<lparr>view = True, posted = [], feedbackResolve = True, resolved = [], messages = [],
          inputEnabled = True, pendingPrompt = Some ''Review the login form'', entries = [],
          onFeedbackSubmit = True,
          disk = \<lparr>channel_dir = Some empty_channel, rm_denied = False\<rparr>, date_now = 1000\<rparr>
     = Return
        \<lparr>view = True, posted = [], feedbackResolve = True, resolved = [], messages = [],
          inputEnabled = True, pendingPrompt = Some ''Review the login form'', entries = [],
          onFeedbackSubmit = True,
          disk = \<lparr>channel_dir = Some empty_channel, rm_denied = False\<rparr>, date_now = 1000\<rparr>"
  using handleFeedbackSubmit_blank_noop [OF trim_blank_example, of "Some []"] trim_blank_example
  by simp

section \<open>Timeout\<close>

text \<open>
  C3, as the code has it. Suppose that nothing writes the feedback file during the call.
  Then \<open>executeTool\<close> (whose wait is bounded by 300000 ms) returns the single text block
  \<open>[Timeout: No feedback received]\<close>, whatever the channel directory held before, provided
  that the operating system carries out the calls that stand outside every \<open>try\<close>: the
  removal of a stale feedback file if there is one, the creation of the channel directory,
  and the write of the request file. \<open>waitForFeedback\<close> returns that block for every
  timeout bound when it starts with the feedback file absent or holding text that is not
  JSON (the loop catches the parse error at every poll), provided that the channel
  directory exists or can be created. Both are total functions, so the call does return.
  When the channel directory is missing and cannot be created, both calls throw the error
  of \<open>mkdirSync\<close>; \<open>executeTool\<close> also throws when the stale feedback file cannot be removed
  or the request file cannot be written.
\<close>

theorem timeout_sentinel:
  assumes "\<forall>(t, e) \<in> set (pending w). \<not> touches_feedback e"
  shows "((unlink_refused os = None \<or> read_file (files w) FEEDBACK_FILE = None)
            \<and> mkdir_refused os = None \<and> write_refused os = None \<longrightarrow>
          fst (executeTool_os os env prompt w) = Return [TextBlock ''[Timeout: No feedback received]''])
       \<and> ((\<forall>tx. read_file (files w) FEEDBACK_FILE = Some tx \<longrightarrow> JSON_parse env tx = None)
            \<and> (existsSync_dir (files w) \<or> mkdir_refused os = None) \<longrightarrow>
          fst (waitForFeedback_os os env timeout w) = Return [TextBlock ''[Timeout: No feedback received]''])
       \<and> (\<forall>code. \<not> existsSync_dir (files w) \<and> mkdir_refused os = Some code \<longrightarrow>
            fst (waitForFeedback_os os env timeout w) = Throw (FsError code)
          \<and> fst (executeTool_os os env prompt w) = Throw (FsError code))
       \<and> (\<forall>code. existsSync (files w) FEEDBACK_FILE \<and> unlink_refused os = Some code \<longrightarrow>
            fst (executeTool_os os env prompt w) = Throw (FsError code))
       \<and> (\<forall>code. (unlink_refused os = None \<or> read_file (files w) FEEDBACK_FILE = None)
            \<and> (existsSync_dir (files w) \<or> mkdir_refused os = None)
            \<and> write_refused os = Some code \<longrightarrow>
            fst (executeTool_os os env prompt w) = Throw (FsError code))"
proof (intro conjI allI impI)
  assume "(unlink_refused os = None \<or> read_file (files w) FEEDBACK_FILE = None)
            \<and> mkdir_refused os = None \<and> write_refused os = None"
  then have "fst (executeTool_os os env prompt w) = Return timeout_reply"
    using executeTool_os_idle [OF assms, of os env prompt] by blast
  then show "fst (executeTool_os os env prompt w) = Return [TextBlock ''[Timeout: No feedback received]'']"
    by (simp add: timeout_reply_def)
next
  assume "(\<forall>tx. read_file (files w) FEEDBACK_FILE = Some tx \<longrightarrow> JSON_parse env tx = None)
            \<and> (existsSync_dir (files w) \<or> mkdir_refused os = None)"
  then have "fst (waitForFeedback_os os env timeout w) = Return timeout_reply"
    using waitForFeedback_os_idle [OF _ assms, of env os timeout] by blast
  then show "fst (waitForFeedback_os os env timeout w) = Return [TextBlock ''[Timeout: No feedback received]'']"
    by (simp add: timeout_reply_def)
next
  fix code
  assume a: "\<not> existsSync_dir (files w) \<and> mkdir_refused os = Some code"
  then have e: "ensureDir_os os (files w) = Throw (FsError code)"
    by (simp add: ensureDir_os_refused)
  then show "fst (waitForFeedback_os os env timeout w) = Throw (FsError code)"
    by (simp add: waitForFeedback_os_def)
  from a have "\<not> existsSync (files w) FEEDBACK_FILE"
    by (simp add: existsSync_def existsSync_dir_def read_file_def)
  with e show "fst (executeTool_os os env prompt w) = Throw (FsError code)"
    by (simp add: executeTool_os_def)
next
  fix code
  assume "existsSync (files w) FEEDBACK_FILE \<and> unlink_refused os = Some code"
  then show "fst (executeTool_os os env prompt w) = Throw (FsError code)"
    by (simp add: executeTool_os_def unlinkSync_os_def)
next
  fix code
  assume a: "(unlink_refused os = None \<or> read_file (files w) FEEDBACK_FILE = None)
            \<and> (existsSync_dir (files w) \<or> mkdir_refused os = None)
            \<and> write_refused os = Some code"
  from a stale_feedback_removed [of os w] obtain fs1 where
    fs1: "(if existsSync (files w) FEEDBACK_FILE then unlinkSync_os os FEEDBACK_FILE (files w)
           else Return (files w)) = Return fs1"
    and d1: "existsSync_dir fs1 = existsSync_dir (files w)"
    by blast
  have e1: "ensureDir_os os fs1 = Return (ensureDir fs1)"
    by (rule ensureDir_os_carried_out) (use a d1 in simp)
  show "fst (executeTool_os os env prompt w) = Throw (FsError code)"
    unfolding executeTool_os_def fs1 using a by (simp add: e1 writeFileSync_os_def)
qed

theorem timeout_sentinel_witness:
  "\<not> touches_feedback EvCheckForRequest
   \<and> \<not> touches_feedback EvDeactivate
   \<and> fst (executeTool_os \<lparr>unlink_refused = None, mkdir_refused = None, write_refused = None\<rparr>
        (table_env []) ''Added the login form''
        \<lparr>files = \<lparr>channel_dir = Some (empty_channel\<lparr>feedback_file := Some ''stale''\<rparr>), rm_denied = False\<rparr>,
         clock = 0, pending = [(100, EvCheckForRequest), (700, EvDeactivate)]\<rparr>)
     = Return [TextBlock ''[Timeout: No feedback received]'']
   \<and> JSON_parse (table_env []) ''{not valid json}'' = None
   \<and> fst (waitForFeedback_os
        \<lparr>unlink_refused = Some ''EPERM'', mkdir_refused = Some ''EACCES'', write_refused = Some ''ENOSPC''\<rparr>
        (table_env []) 1000
        \<lparr>files = \<lparr>channel_dir = Some (empty_channel\<lparr>feedback_file := Some ''{not valid json}''\<rparr>), rm_denied = False\<rparr>,
         clock = 0, pending = [(100, EvCheckForRequest)]\<rparr>)
     = Return [TextBlock ''[Timeout: No feedback received]'']
   \<and> fst (waitForFeedback_os
        \<lparr>unlink_refused = None, mkdir_refused = Some ''EACCES'', write_refused = None\<rparr>
        (table_env []) 1000
        \<lparr>files = \<lparr>channel_dir = None, rm_denied = False\<rparr>,
         clock = 0, pending = [(100, EvCheckForRequest)]\<rparr>)
     = Throw (FsError ''EACCES'')"
  using timeout_sentinel [of
      "\<lparr>files = \<lparr>channel_dir = Some (empty_channel\<lparr>feedback_file := Some ''stale''\<rparr>), rm_denied = False\<rparr>,
        clock = 0, pending = [(100, EvCheckForRequest), (700, EvDeactivate)]\<rparr>"
      "\<lparr>unlink_refused = None, mkdir_refused = None, write_refused = None\<rparr>"
      "table_env []" "''Added the login form''" 1000]
    timeout_sentinel [of
      "\<lparr>files = \<lparr>channel_dir = Some (empty_channel\<lparr>feedback_file := Some ''{not valid json}''\<rparr>), rm_denied = False\<rparr>,
        clock = 0, pending = [(100, EvCheckForRequest)]\<rparr>"
      "\<lparr>unlink_refused = Some ''EPERM'', mkdir_refused = Some ''EACCES'', write_refused = Some ''ENOSPC''\<rparr>"
      "table_env []" "''Added the login form''" 1000]
    timeout_sentinel [of
      "\<lparr>files = \<lparr>channel_dir = None, rm_denied = False\<rparr>,
        clock = 0, pending = [(100, EvCheckForRequest)]\<rparr>"
      "\<lparr>unlink_refused = None, mkdir_refused = Some ''EACCES'', write_refused = None\<rparr>"
      "table_env []" "''Added the login form''" 1000]
  by (simp add: read_file_def existsSync_dir_def table_env_def empty_channel_def)

text \<open>
  C3 as stated fails when a call outside every \<open>try\<close> is refused. With the channel
  directory missing and not creatable (here a component of its path is a regular file),
  \<open>waitForFeedback\<close> and \<open>executeTool\<close> throw the error of \<open>mkdirSync\<close> although no feedback
  is ever written; \<open>executeTool\<close> throws likewise when the request file cannot be written
  and when a stale feedback file cannot be removed.
\<close>

theorem refused_call_throws:
  "fst (waitForFeedback_os \<lparr>unlink_refused = None, mkdir_refused = Some ''ENOTDIR'', write_refused = None\<rparr>
          (table_env []) 1000
          \<lparr>files = \<lparr>channel_dir = None, rm_denied = False\<rparr>, clock = 0, pending = []\<rparr>)
     = Throw (FsError ''ENOTDIR'')
   \<and> fst (executeTool_os \<lparr>unlink_refused = None, mkdir_refused = Some ''ENOTDIR'', write_refused = None\<rparr>
          (table_env []) ''Added the login form''
          \<lparr>files = \<lparr>channel_dir = None, rm_denied = False\<rparr>, clock = 0, pending = []\<rparr>)
     = Throw (FsError ''ENOTDIR'')
   \<and> fst (executeTool_os \<lparr>unlink_refused = None, mkdir_refused = None, write_refused = Some ''ENOSPC''\<rparr>
          (table_env []) ''Added the login form''
          \<lparr>files = \<lparr>channel_dir = Some empty_channel, rm_denied = False\<rparr>, clock = 0, pending = []\<rparr>)
     = Throw (FsError ''ENOSPC'')
   \<and> fst (executeTool_os \<lparr>unlink_refused = Some ''EPERM'', mkdir_refused = None, write_refused = None\<rparr>
          (table_env []) ''Added the login form''
          \<lparr>files = \<lparr>channel_dir = Some (empty_channel\<lparr>feedback_file := Some ''stale''\<rparr>), rm_denied = False\<rparr>,
           clock = 0, pending = []\<rparr>)
     = Throw (FsError ''EPERM'')"
  by (simp add: waitForFeedback_os_def executeTool_os_def ensureDir_os_def mkdirSync_os_def
        writeFileSync_os_def unlinkSync_os_def existsSync_dir_def existsSync_def read_file_def
        empty_channel_def)

section \<open>Order of the steps of a call\<close>

text \<open>
  C7: \<open>executeTool\<close> first deletes a feedback file left from before, then writes the request
  file, then waits 500 ms, then polls. So its result and final state do not depend on what
  the feedback file held when the call began, and when the settle delay begins the feedback
  file is absent and the request file holds the prompt.
\<close>

theorem executeTool_discards_stale_feedback:
  "executeTool env prompt (w\<lparr>files := fs\<lparr>channel_dir := Some (ch\<lparr>feedback_file := Some stale\<rparr>)\<rparr>\<rparr>)
     = executeTool env prompt (w\<lparr>files := fs\<lparr>channel_dir := Some (ch\<lparr>feedback_file := None\<rparr>)\<rparr>\<rparr>)
   \<and> (\<exists>fs2. read_file fs2 FEEDBACK_FILE = None
          \<and> read_file fs2 REQUEST_FILE = Some (JSON_stringify env (request_json prompt (clock w)))
          \<and> executeTool env prompt w = waitForFeedback env 300000 (sleep env 500 (w\<lparr>files := fs2\<rparr>)))"
proof
  show "executeTool env prompt (w\<lparr>files := fs\<lparr>channel_dir := Some (ch\<lparr>feedback_file := Some stale\<rparr>)\<rparr>\<rparr>)
     = executeTool env prompt (w\<lparr>files := fs\<lparr>channel_dir := Some (ch\<lparr>feedback_file := None\<rparr>)\<rparr>\<rparr>)"
    by (simp add: executeTool_def existsSync_def read_file_def unlinkSync_def split: result.splits)
next
  from executeTool_unfold [of env prompt w]
  show "\<exists>fs2. read_file fs2 FEEDBACK_FILE = None
          \<and> read_file fs2 REQUEST_FILE = Some (JSON_stringify env (request_json prompt (clock w)))
          \<and> executeTool env prompt w = waitForFeedback env 300000 (sleep env 500 (w\<lparr>files := fs2\<rparr>))"
    by blast
qed

section \<open>A reply reaches the caller\<close>

text \<open>
  C1, as the code has it. Suppose that during a call of \<open>executeTool\<close> the Responder writes
  one Feedback Message with text \<open>T\<close> (not empty, or with at least one image) at a time
  \<open>t\<close> after the call began and less than 300000 ms after it, which is the time of the last
  poll of the wait loop; that, the Poller's ticks apart, nothing else happens in the directory; that
  \<open>JSON.parse\<close> reads back what \<open>JSON.stringify\<close> wrote; and that the configured footer
  has the text \<open>ft\<close>. Then the call returns, and the first block of its
  result is a text block whose text is \<open>T\<close>, followed by the image references, followed by
  the footer.
\<close>

theorem feedback_reaches_caller:
  assumes "JSON_parse env (JSON_stringify env (feedback_json T (case images of None \<Rightarrow> [] | Some is \<Rightarrow> is) t))
             = Some (feedback_json T (case images of None \<Rightarrow> [] | Some is \<Rightarrow> is) t)"
    and "T \<noteq> [] \<or> (case images of None \<Rightarrow> [] | Some is \<Rightarrow> is) \<noteq> []"
    and "template (footer (loadConfig env (files w))) = Some ft"
    and "(t, EvWriteFeedback T images) \<in> set (pending w)"
    and "\<forall>ev \<in> set (pending w). snd ev = EvCheckForRequest \<or> ev = (t, EvWriteFeedback T images)"
    and "t < clock w + 300000"
    and "clock w \<le> t"
  shows "\<exists>suffix blocks. fst (executeTool env prompt w) = Return (TextBlock (T @ suffix @ ft) # blocks)"
proof -
  let ?is = "case images of None \<Rightarrow> [] | Some is \<Rightarrow> is"
  let ?tx = "JSON_stringify env (feedback_json T ?is t)"
  from executeTool_unfold [of env prompt w] obtain fs2 where
    absent: "read_file fs2 FEEDBACK_FILE = None"
    and conf: "read_file fs2 CONFIG_FILE = read_file (files w) CONFIG_FILE"
    and run: "executeTool env prompt w = waitForFeedback env 300000 (sleep env 500 (w\<lparr>files := fs2\<rparr>))"
    by blast
  let ?w1 = "sleep env 500 (w\<lparr>files := fs2\<rparr>)"
  let ?w2 = "?w1\<lparr>files := ensureDir (files ?w1)\<rparr>"
  let ?due = "filter (\<lambda>(t, e). t < clock w + 500) (pending w)"
  have due: "\<forall>ev \<in> set ?due. snd ev = EvCheckForRequest \<or> ev = (t, EvWriteFeedback T images)"
    using assms(5) by simp
  from fold_ticks_and_write [OF due, of env fs2]
  have c1: "read_file (files ?w1) CONFIG_FILE = read_file fs2 CONFIG_FILE"
    and f1: "read_file (files ?w1) FEEDBACK_FILE =
              (if (t, EvWriteFeedback T images) \<in> set ?due then Some ?tx else read_file fs2 FEEDBACK_FILE)"
    by simp_all
  have "read_file (files ?w2) CONFIG_FILE = read_file (files w) CONFIG_FILE"
    using c1 conf by simp
  from loadConfig_cong [OF this, of env]
  have cfg: "template (footer (loadConfig env (files ?w2))) = Some ft"
    using assms(3) by simp
  have others: "\<forall>ev \<in> set (pending ?w2). snd ev = EvCheckForRequest \<or> ev = (t, EvWriteFeedback T images)"
    using assms(5) by simp
  have state: "(read_file (files ?w2) FEEDBACK_FILE = Some ?tx \<and> clock ?w2 - clock ?w2 < 300000)
              \<or> (read_file (files ?w2) FEEDBACK_FILE = None
                 \<and> (t, EvWriteFeedback T images) \<in> set (pending ?w2)
                 \<and> clock ?w2 \<le> t \<and> t + 500 < clock ?w2 + 300000)"
  proof (cases "t < clock w + 500")
    case True
    with assms(4) have "(t, EvWriteFeedback T images) \<in> set ?due" by simp
    with f1 have "read_file (files ?w1) FEEDBACK_FILE = Some ?tx" by (simp only: if_True)
    then show ?thesis by simp
  next
    case False
    with assms(4) have "(t, EvWriteFeedback T images) \<notin> set ?due" by simp
    with f1 absent have "read_file (files ?w1) FEEDBACK_FILE = None" by (simp only: if_False)
    then show ?thesis using assms(4,6) False by simp
  qed
  from waitLoop_delivers [OF assms(1,2) cfg others state]
  obtain suf blocks where
    "fst (waitLoop env (clock ?w2) 300000 ?w2) = Return (TextBlock (T @ suf @ ft) # blocks)"
    by blast
  then have "fst (executeTool env prompt w) = Return (TextBlock (T @ suf @ ft) # blocks)"
    by (simp add: run waitForFeedback_def Let_def)
  then show ?thesis by blast
qed

theorem feedback_reaches_caller_witness:
  \<open>JSON_parse (table_env [(''{"feedback":"Looks good","images":[],"timestamp":2000}'', feedback_json ''Looks good'' [] 2000)])
      (JSON_stringify (table_env [(''{"feedback":"Looks good","images":[],"timestamp":2000}'', feedback_json ''Looks good'' [] 2000)])
         (feedback_json ''Looks good'' [] 2000))
     = Some (feedback_json ''Looks good'' [] 2000)
   \<and> (0::int) \<le> 2000
   \<and> (2000::int) < 0 + 300000
   \<and> template (footer (loadConfig
         (table_env [(''{"feedback":"Looks good","images":[],"timestamp":2000}'', feedback_json ''Looks good'' [] 2000)])
         \<lparr>channel_dir = None, rm_denied = False\<rparr>)) = Some default_footer
   \<and> (\<exists>suffix blocks.
         fst (executeTool
                (table_env [(''{"feedback":"Looks good","images":[],"timestamp":2000}'', feedback_json ''Looks good'' [] 2000)])
                ''Added the login form''
                \<lparr>files = \<lparr>channel_dir = None, rm_denied = False\<rparr>, clock = 0,
                 pending = [(100, EvCheckForRequest), (2000, EvWriteFeedback ''Looks good'' None), (2100, EvCheckForRequest)]\<rparr>)
           = Return (TextBlock (''Looks good'' @ suffix @ default_footer) # blocks))\<close>
proof -
  let ?env = \<open>table_env [(''{"feedback":"Looks good","images":[],"timestamp":2000}'', feedback_json ''Looks good'' [] 2000)]\<close>
  let ?w = "\<lparr>files = \<lparr>channel_dir = None, rm_denied = False\<rparr>, clock = 0,
             pending = [(100, EvCheckForRequest), (2000, EvWriteFeedback ''Looks good'' None), (2100, EvCheckForRequest)]\<rparr>"
  have rt: "JSON_parse ?env (JSON_stringify ?env (feedback_json ''Looks good'' (case None of None \<Rightarrow> [] | Some is \<Rightarrow> is) 2000))
              = Some (feedback_json ''Looks good'' (case None of None \<Rightarrow> [] | Some is \<Rightarrow> is) 2000)"
    by (simp add: table_env_def feedback_json_def)
  have ne: "''Looks good'' \<noteq> [] \<or> (case None of None \<Rightarrow> [] | Some is \<Rightarrow> is) \<noteq> ([] :: string list)" by simp
  have ft: "template (footer (loadConfig ?env (files ?w))) = Some default_footer"
    by (simp add: loadConfig_def existsSync_def read_file_def DEFAULT_CONFIG_def)
  have mem: "(2000, EvWriteFeedback ''Looks good'' None) \<in> set (pending ?w)" by simp
  have oth: "\<forall>ev \<in> set (pending ?w). snd ev = EvCheckForRequest \<or> ev = (2000, EvWriteFeedback ''Looks good'' None)"
    by simp
  have early: "2000 < clock ?w + 300000" by simp
  have after: "clock ?w \<le> 2000" by simp
  from feedback_reaches_caller [OF rt ne ft mem oth early after, of "''Added the login form''"] rt ft
  show ?thesis by simp
qed

text \<open>
  C1 as stated fails for a write that comes after the last poll but before the timeout
  elapses. \<open>executeTool\<close> called at time 0 starts polling at 500 with a bound of 300000 ms,
  polls for the last time at 300000 and gives up at 300500: a message written at 300200 is
  never read. Likewise \<open>waitForFeedback\<close> with a bound of 1000 ms polls at 0 and at 500 and
  gives up at 1000: a message written at 700 is never read. Both calls return the timeout
  sentinel, which does not contain the text of the message.
\<close>

theorem late_feedback_is_missed:
  \<open>(300200::int) < 0 + 500 + 300000
   \<and> (700::int) < 0 + 1000
   \<and> fst (executeTool
          (table_env [(''{"feedback":"ok","images":[],"timestamp":300200}'', feedback_json ''ok'' [] 300200)])
          ''Added the login form''
          \<lparr>files = \<lparr>channel_dir = None, rm_denied = False\<rparr>, clock = 0,
           pending = [(300200, EvWriteFeedback ''ok'' None)]\<rparr>)
     = Return [TextBlock ''[Timeout: No feedback received]'']
   \<and> fst (waitForFeedback
          (table_env [(''{"feedback":"ok","images":[],"timestamp":700}'', feedback_json ''ok'' [] 700)])
          1000
          \<lparr>files = \<lparr>channel_dir = None, rm_denied = False\<rparr>, clock = 0,
           pending = [(700, EvWriteFeedback ''ok'' None)]\<rparr>)
     = Return [TextBlock ''[Timeout: No feedback received]'']\<close>
proof (intro conjI)
  show "(300200::int) < 0 + 500 + 300000" by simp
  show "(700::int) < 0 + 1000" by simp
next
  show \<open>fst (executeTool
          (table_env [(''{"feedback":"ok","images":[],"timestamp":300200}'', feedback_json ''ok'' [] 300200)])
          ''Added the login form''
          \<lparr>files = \<lparr>channel_dir = None, rm_denied = False\<rparr>, clock = 0,
           pending = [(300200, EvWriteFeedback ''ok'' None)]\<rparr>)
     = Return [TextBlock ''[Timeout: No feedback received]'']\<close>
    using executeTool_quiet [of
        "\<lparr>files = \<lparr>channel_dir = None, rm_denied = False\<rparr>, clock = 0,
          pending = [(300200, EvWriteFeedback ''ok'' None)]\<rparr>"]
    by (simp add: timeout_reply_def)
next
  have late: "\<forall>c::int. (c - 0) mod 500 = 0 \<and> 700 < c \<longrightarrow> 1000 \<le> c - 0"
  proof (intro allI impI)
    fix c :: int
    assume a: "(c - 0) mod 500 = 0 \<and> 700 < c"
    then have "500 dvd (c - 0)" by (simp only: dvd_eq_mod_eq_0)
    then obtain k where k: "c - 0 = 500 * k" by (rule dvdE)
    with a have "700 < 500 * k" by linarith
    then have "2 \<le> k" by linarith
    with k show "1000 \<le> c - 0" by linarith
  qed
  show \<open>fst (waitForFeedback
          (table_env [(''{"feedback":"ok","images":[],"timestamp":700}'', feedback_json ''ok'' [] 700)])
          1000
          \<lparr>files = \<lparr>channel_dir = None, rm_denied = False\<rparr>, clock = 0,
           pending = [(700, EvWriteFeedback ''ok'' None)]\<rparr>)
     = Return [TextBlock ''[Timeout: No feedback received]'']\<close>
    using late
      waitForFeedback_quiet [of
        "\<lparr>files = \<lparr>channel_dir = None, rm_denied = False\<rparr>, clock = 0,
          pending = [(700, EvWriteFeedback ''ok'' None)]\<rparr>" 1000]
    by (simp add: timeout_reply_def read_file_def)
qed

section \<open>Unknown tools and methods\<close>




section \<open>Configuration round trip and defaults\<close>

text \<open>
  C6: after \<open>writeConfig\<close> has written a snapshot whose tool name is \<open>name\<close> (for instance
  \<open>foo\<close>), \<open>getTools\<close> returns exactly one tool, named \<open>name\<close>, provided \<open>JSON.parse\<close>
  reads back what \<open>JSON.stringify\<close> wrote. When the config file is absent or does not
  parse, \<open>loadConfig\<close> gives the defaults and the one tool is named \<open>run_auto_tester\<close>.
  \<open>tools/list\<close> always answers with the result of \<open>getTools\<close>; and without a config file a
  \<open>tools/call\<close> of \<open>run_auto_tester\<close> is carried out (here to its timeout, nothing writing
  feedback) rather than failing.
\<close>

theorem config_round_trip:
  "(JSON_parse env (JSON_stringify env
        (config_json name (config_get (cfg_toolDescription config) default_toolDescription)
           (config_get (cfg_footer config) default_footer)))
      = Some (config_json name (config_get (cfg_toolDescription config) default_toolDescription)
           (config_get (cfg_footer config) default_footer)) \<longrightarrow>
    cfg_toolName config = Some name \<longrightarrow>
    (\<exists>fs'. writeConfig env config fs = Return fs'
       \<and> getTools env fs'
           = [JObj [(''name'', JStr name),
                    (''description'', JStr (config_get (cfg_toolDescription config) default_toolDescription)),
                    (''inputSchema'', inputSchema)]]))
   \<and> (read_file fs CONFIG_FILE = None \<or> (\<exists>tx. read_file fs CONFIG_FILE = Some tx \<and> JSON_parse env tx = None) \<longrightarrow>
        loadConfig env fs = DEFAULT_CONFIG
      \<and> getTools env fs
           = [JObj [(''name'', JStr ''run_auto_tester''),
                    (''description'', JStr default_toolDescription),
                    (''inputSchema'', inputSchema)]])
   \<and> (\<not> nullish req \<longrightarrow> get_prop req ''method'' = JStr ''tools/list'' \<longrightarrow>
        process env req w
          = (Return (result_response (get_prop req ''id'') (JObj [(''tools'', JArr (getTools env (files w)))])), w))
   \<and> (\<forall>desc. read_file (files w) CONFIG_FILE = None \<longrightarrow>
        \<not> nullish req \<longrightarrow> get_prop req ''method'' = JStr ''tools/call'' \<longrightarrow>
        \<not> nullish (get_prop req ''params'') \<longrightarrow>
        get_prop (get_prop req ''params'') ''name'' = JStr ''run_auto_tester'' \<longrightarrow>
        description_arg (case get_prop (get_prop req ''params'') ''arguments'' of JUndefined \<Rightarrow> JObj [] | a \<Rightarrow> a)
          = Return desc \<longrightarrow>
        (\<forall>(t, e) \<in> set (pending w). \<not> touches_feedback e) \<longrightarrow>
        fst (process env req w)
          = Return (result_response (get_prop req ''id'')
              (JObj [(''content'', JArr [block_json (TextBlock ''[Timeout: No feedback received]'')])])))"
proof (intro conjI allI impI)
  let ?d = "config_get (cfg_toolDescription config) default_toolDescription"
  let ?f = "config_get (cfg_footer config) default_footer"
  let ?tx = "JSON_stringify env (config_json name ?d ?f)"
  assume rt: "JSON_parse env ?tx = Some (config_json name ?d ?f)"
    and nm: "cfg_toolName config = Some name"
  from writeFileSync_ensureDir [of CONFIG_FILE ?tx fs] obtain fs' where
    w: "writeFileSync CONFIG_FILE ?tx (ensureDir fs) = Return fs'"
    and rd: "\<forall>g. read_file fs' g = (if g = CONFIG_FILE then Some ?tx else read_file fs g)"
    by blast
  have "writeConfig env config fs = Return fs'"
    using w nm by (simp add: writeConfig_def config_get_def)
  moreover have "read_file fs' CONFIG_FILE = Some ?tx" using rd by simp
  from loadConfig_written [OF this rt]
  have "getTools env fs' = [JObj [(''name'', JStr name), (''description'', JStr ?d), (''inputSchema'', inputSchema)]]"
    by (simp add: getTools_def)
  ultimately show "\<exists>fs'. writeConfig env config fs = Return fs'
       \<and> getTools env fs' = [JObj [(''name'', JStr name), (''description'', JStr ?d), (''inputSchema'', inputSchema)]]"
    by blast
next
  assume m: "read_file fs CONFIG_FILE = None \<or> (\<exists>tx. read_file fs CONFIG_FILE = Some tx \<and> JSON_parse env tx = None)"
  from loadConfig_missing [OF m] show d: "loadConfig env fs = DEFAULT_CONFIG" .
  then show "getTools env fs
           = [JObj [(''name'', JStr ''run_auto_tester''),
                    (''description'', JStr default_toolDescription),
                    (''inputSchema'', inputSchema)]]"
    by (simp add: getTools_def DEFAULT_CONFIG_def default_toolName_def)
next
  assume "\<not> nullish req" "get_prop req ''method'' = JStr ''tools/list''"
  then show "process env req w
          = (Return (result_response (get_prop req ''id'') (JObj [(''tools'', JArr (getTools env (files w)))])), w)"
    by (simp add: process_def Let_def)
next
  fix desc
  assume a: "read_file (files w) CONFIG_FILE = None" "\<not> nullish req"
    "get_prop req ''method'' = JStr ''tools/call''" "\<not> nullish (get_prop req ''params'')"
    "get_prop (get_prop req ''params'') ''name'' = JStr ''run_auto_tester''"
    "description_arg (case get_prop (get_prop req ''params'') ''arguments'' of JUndefined \<Rightarrow> JObj [] | a \<Rightarrow> a)
          = Return desc"
    and q: "\<forall>(t, e) \<in> set (pending w). \<not> touches_feedback e"
  have cfg: "loadConfig env (files w) = DEFAULT_CONFIG"
    using a(1) by (simp add: loadConfig_missing)
  have "\<forall>(t, e) \<in> set (pending w). touches_feedback e \<longrightarrow> clock w + 300000 \<le> t"
    using q by auto
  from executeTool_quiet [OF this, of env desc]
  obtain w' where ex: "executeTool env desc w = (Return timeout_reply, w')"
    by (cases "executeTool env desc w") auto
  show "fst (process env req w)
          = Return (result_response (get_prop req ''id'')
              (JObj [(''content'', JArr [block_json (TextBlock ''[Timeout: No feedback received]'')])]))"
    using a cfg ex
    by (simp add: process_def Let_def DEFAULT_CONFIG_def default_toolName_def timeout_reply_def)
qed

theorem config_round_trip_witness:
  \<open>(\<exists>fs'. writeConfig
            (table_env [(''{"toolName":"foo","toolDescription":"Ask the human","footer":"--"}'',
                         config_json ''foo'' ''Ask the human'' ''--'')])
            \<lparr>cfg_toolName = Some ''foo'', cfg_toolDescription = Some ''Ask the human'', cfg_footer = Some ''--''\<rparr>
            \<lparr>channel_dir = None, rm_denied = False\<rparr>
          = Return fs'
        \<and> getTools
            (table_env [(''{"toolName":"foo","toolDescription":"Ask the human","footer":"--"}'',
                         config_json ''foo'' ''Ask the human'' ''--'')])
            fs'
          = [JObj [(''name'', JStr ''foo''), (''description'', JStr ''Ask the human''),
                   (''inputSchema'', inputSchema)]])
   \<and> getTools
        (table_env [(''{"toolName":"foo","toolDescription":"Ask the human","footer":"--"}'',
                     config_json ''foo'' ''Ask the human'' ''--'')])
        \<lparr>channel_dir = None, rm_denied = False\<rparr>
      = [JObj [(''name'', JStr ''run_auto_tester''), (''description'', JStr default_toolDescription),
               (''inputSchema'', inputSchema)]]\<close>
proof -
  let ?env = \<open>table_env [(''{"toolName":"foo","toolDescription":"Ask the human","footer":"--"}'',
                         config_json ''foo'' ''Ask the human'' ''--'')]\<close>
  let ?config = "\<lparr>cfg_toolName = Some ''foo'', cfg_toolDescription = Some ''Ask the human'', cfg_footer = Some ''--''\<rparr>"
  let ?fs = "\<lparr>channel_dir = None, rm_denied = False\<rparr>"
  have rt: "JSON_parse ?env (JSON_stringify ?env
        (config_json ''foo'' (config_get (cfg_toolDescription ?config) default_toolDescription)
           (config_get (cfg_footer ?config) default_footer)))
      = Some (config_json ''foo'' (config_get (cfg_toolDescription ?config) default_toolDescription)
           (config_get (cfg_footer ?config) default_footer))"
    by (simp add: table_env_def config_get_def config_json_def)
  have ab: "read_file ?fs CONFIG_FILE = None" by (simp add: read_file_def)
  from config_round_trip [of ?env "''foo''" ?config ?fs JNull
      "\<lparr>files = ?fs, clock = 0, pending = []\<rparr>"] rt ab
  show ?thesis by (simp add: config_get_def)
qed

section \<open>Framing\<close>

text \<open>
  C4: fed the two lines \<open>{"jsonrpc":"2.0","id":1,"method":"tools/list"}\<close> and
  \<open>{not valid json}\<close>, each ended by a newline, with an empty buffer, the Dispatcher writes
  exactly one line, the \<open>tools/list\<close> result for id 1, and goes on. In general a line that
  \<open>JSON.parse\<close> rejects leaves the server as it was: no response, no stop. Input is handled
  by whole lines: two chunks fed one after the other give what their concatenation fed at
  once gives, and a chunk without a newline is only appended to the buffer.
\<close>

theorem framing_robustness:
  \<open>(JSON_parse env ''{"jsonrpc":"2.0","id":1,"method":"tools/list"}''
        = Some (JObj [(''jsonrpc'', JStr ''2.0''), (''id'', JNum 1), (''method'', JStr ''tools/list'')]) \<longrightarrow>
     JSON_parse env ''{not valid json}'' = None \<longrightarrow>
     buf s = [] \<longrightarrow>
     onData env
       (''{"jsonrpc":"2.0","id":1,"method":"tools/list"}'' @ [CHR 0x0A] @ ''{not valid json}'' @ [CHR 0x0A]) s
       = Return (s\<lparr>stdout := stdout s @
           [JSON_stringify env
              (result_response (JNum 1) (JObj [(''tools'', JArr (getTools env (files (srv_world s))))]))
            @ [CHR 0x0A]]\<rparr>))
   \<and> (JSON_parse env msg = None \<longrightarrow> handle env msg s = Return s)
   \<and> rbind (onData env c1 s) (onData env c2) = onData env (c1 @ c2) s
   \<and> (CHR 0x0A \<notin> set (buf s) \<longrightarrow> CHR 0x0A \<notin> set chunk \<longrightarrow>
        onData env chunk s = Return (s\<lparr>buf := buf s @ chunk\<rparr>))\<close>
proof (intro conjI impI)
  let ?l1 = \<open>''{"jsonrpc":"2.0","id":1,"method":"tools/list"}''\<close>
  let ?req = "JObj [(''jsonrpc'', JStr ''2.0''), (''id'', JNum 1), (''method'', JStr ''tools/list'')]"
  assume p1: "JSON_parse env ?l1 = Some ?req"
    and p2: "JSON_parse env ''{not valid json}'' = None"
    and b: "buf s = []"
  have pr: "process env ?req (srv_world s)
      = (Return (result_response (JNum 1) (JObj [(''tools'', JArr (getTools env (files (srv_world s))))])),
         srv_world s)"
    by (simp add: process_def Let_def get_prop_def)
  have h1: "handle env ?l1 (s\<lparr>buf := []\<rparr>)
      = Return (s\<lparr>buf := [], stdout := stdout s @
           [JSON_stringify env
              (result_response (JNum 1) (JObj [(''tools'', JArr (getTools env (files (srv_world s))))]))
            @ [CHR 0x0A]]\<rparr>)"
    using handle_returns [OF p1, of "s\<lparr>buf := []\<rparr>"] pr by simp
  have h2: "\<And>s'. handle env ''{not valid json}'' s' = Return s'"
    using p2 by (simp add: handle_def parse_def)
  have "s\<lparr>buf := [], stdout := stdout s @
           [JSON_stringify env
              (result_response (JNum 1) (JObj [(''tools'', JArr (getTools env (files (srv_world s))))]))
            @ [CHR 0x0A]]\<rparr>
        = s\<lparr>stdout := stdout s @
           [JSON_stringify env
              (result_response (JNum 1) (JObj [(''tools'', JArr (getTools env (files (srv_world s))))]))
            @ [CHR 0x0A]]\<rparr>"
    using b by (cases s) simp
  note same = this
  have sp: "str_split (buf s @ ?l1 @ [CHR 0x0A] @ ''{not valid json}'' @ [CHR 0x0A]) [CHR 0x0A]
      = [?l1, ''{not valid json}'', []]"
    unfolding b append_Nil by (rule two_lines_split)
  have "onData env (?l1 @ [CHR 0x0A] @ ''{not valid json}'' @ [CHR 0x0A]) s
      = handle_all env (filter (\<lambda>l. trim l \<noteq> []) (butlast [?l1, ''{not valid json}'', []]))
          (s\<lparr>buf := pop_last [?l1, ''{not valid json}'', []]\<rparr>)"
    unfolding onData_def Let_def sp ..
  also have "\<dots> = handle_all env [?l1, ''{not valid json}''] (s\<lparr>buf := []\<rparr>)"
    using two_lines_not_blank by (simp add: pop_last_def)
  also have "\<dots> = Return (s\<lparr>buf := [], stdout := stdout s @
           [JSON_stringify env
              (result_response (JNum 1) (JObj [(''tools'', JArr (getTools env (files (srv_world s))))]))
            @ [CHR 0x0A]]\<rparr>)"
    by (simp add: h1 h2)
  finally show "onData env (?l1 @ [CHR 0x0A] @ ''{not valid json}'' @ [CHR 0x0A]) s
       = Return (s\<lparr>stdout := stdout s @
           [JSON_stringify env
              (result_response (JNum 1) (JObj [(''tools'', JArr (getTools env (files (srv_world s))))]))
            @ [CHR 0x0A]]\<rparr>)"
    unfolding same .
next
  assume "JSON_parse env msg = None"
  then show "handle env msg s = Return s" by (simp add: handle_def parse_def)
next
  show "rbind (onData env c1 s) (onData env c2) = onData env (c1 @ c2) s"
    by (rule onData_chunks)
next
  assume "CHR 0x0A \<notin> set (buf s)" "CHR 0x0A \<notin> set chunk"
  then show "onData env chunk s = Return (s\<lparr>buf := buf s @ chunk\<rparr>)"
    by (rule onData_partial)
qed

theorem framing_robustness_witness:
  \<open>onData
     (table_env
        [(''{"jsonrpc":"2.0","id":1,"method":"tools/list"}'',
          JObj [(''jsonrpc'', JStr ''2.0''), (''id'', JNum 1), (''method'', JStr ''tools/list'')]),
         (''{"jsonrpc":"2.0","id":1,"result":{"tools":[{"name":"run_auto_tester","description":"Run after implementing features/fixes. Opens feedback panel with your description.","inputSchema":{"type":"object","properties":{"description":{"type":"string","description":"What was changed"}}}}]}}'',
          result_response (JNum 1)
            (JObj [(''tools'',
               JArr [JObj [(''name'', JStr ''run_auto_tester''),
                           (''description'', JStr default_toolDescription),
                           (''inputSchema'', inputSchema)]])]))])
     (''{"jsonrpc":"2.0","id":1,"method":"tools/list"}'' @ [CHR 0x0A] @ ''{not valid json}'' @ [CHR 0x0A])
     \<lparr>srv_world = \<lparr>files = \<lparr>channel_dir = None, rm_denied = False\<rparr>, clock = 0, pending = []\<rparr>,
       buf = [], stdout = []\<rparr>
   = Return
      \<lparr>srv_world = \<lparr>files = \<lparr>channel_dir = None, rm_denied = False\<rparr>, clock = 0, pending = []\<rparr>,
       buf = [],
       stdout = [''{"jsonrpc":"2.0","id":1,"result":{"tools":[{"name":"run_auto_tester","description":"Run after implementing features/fixes. Opens feedback panel with your description.","inputSchema":{"type":"object","properties":{"description":{"type":"string","description":"What was changed"}}}}]}}'' @ [CHR 0x0A]]\<rparr>
   \<and> onData
     (table_env
        [(''{"jsonrpc":"2.0","id":1,"method":"tools/list"}'',
          JObj [(''jsonrpc'', JStr ''2.0''), (''id'', JNum 1), (''method'', JStr ''tools/list'')]),
         (''{"jsonrpc":"2.0","id":1,"result":{"tools":[{"name":"run_auto_tester","description":"Run after implementing features/fixes. Opens feedback panel with your description.","inputSchema":{"type":"object","properties":{"description":{"type":"string","description":"What was changed"}}}}]}}'',
          result_response (JNum 1)
            (JObj [(''tools'',
               JArr [JObj [(''name'', JStr ''run_auto_tester''),
                           (''description'', JStr default_toolDescription),
                           (''inputSchema'', inputSchema)]])]))])
     ''{"jsonrpc":"2.0","id":1,''
     \<lparr>srv_world = \<lparr>files = \<lparr>channel_dir = None, rm_denied = False\<rparr>, clock = 0, pending = []\<rparr>,
       buf = [], stdout = []\<rparr>
   = Return
      \<lparr>srv_world = \<lparr>files = \<lparr>channel_dir = None, rm_denied = False\<rparr>, clock = 0, pending = []\<rparr>,
       buf = ''{"jsonrpc":"2.0","id":1,'', stdout = []\<rparr>\<close>
proof -
  let ?env = \<open>table_env
        [(''{"jsonrpc":"2.0","id":1,"method":"tools/list"}'',
          JObj [(''jsonrpc'', JStr ''2.0''), (''id'', JNum 1), (''method'', JStr ''tools/list'')]),
         (''{"jsonrpc":"2.0","id":1,"result":{"tools":[{"name":"run_auto_tester","description":"Run after implementing features/fixes. Opens feedback panel with your description.","inputSchema":{"type":"object","properties":{"description":{"type":"string","description":"What was changed"}}}}]}}'',
          result_response (JNum 1)
            (JObj [(''tools'',
               JArr [JObj [(''name'', JStr ''run_auto_tester''),
                           (''description'', JStr default_toolDescription),
                           (''inputSchema'', inputSchema)]])]))]\<close>
  let ?s = \<open>\<lparr>srv_world = \<lparr>files = \<lparr>channel_dir = None, rm_denied = False\<rparr>, clock = 0, pending = []\<rparr>,
       buf = [], stdout = []\<rparr>\<close>
  have p1: \<open>JSON_parse ?env ''{"jsonrpc":"2.0","id":1,"method":"tools/list"}''
        = Some (JObj [(''jsonrpc'', JStr ''2.0''), (''id'', JNum 1), (''method'', JStr ''tools/list'')])\<close>
    by (simp add: table_env_def)
  have p2: "JSON_parse ?env ''{not valid json}'' = None"
    by (simp add: table_env_def)
  have gt: "getTools ?env \<lparr>channel_dir = None, rm_denied = False\<rparr>
      = [JObj [(''name'', JStr ''run_auto_tester''), (''description'', JStr default_toolDescription),
               (''inputSchema'', inputSchema)]]"
    by (simp add: getTools_def loadConfig_def existsSync_def read_file_def DEFAULT_CONFIG_def
        default_toolName_def)
  have st: \<open>JSON_stringify ?env
        (result_response (JNum 1)
           (JObj [(''tools'',
              JArr [JObj [(''name'', JStr ''run_auto_tester''), (''description'', JStr default_toolDescription),
                          (''inputSchema'', inputSchema)]])]))
      = ''{"jsonrpc":"2.0","id":1,"result":{"tools":[{"name":"run_auto_tester","description":"Run after implementing features/fixes. Opens feedback panel with your description.","inputSchema":{"type":"object","properties":{"description":{"type":"string","description":"What was changed"}}}}]}}''\<close>
    by (simp add: table_env_def result_response_def)
  have nl: \<open>CHR 0x0A \<notin> set ''{"jsonrpc":"2.0","id":1,''\<close> by simp
  from framing_robustness [of ?env ?s "[]" "[]" "[]" \<open>''{"jsonrpc":"2.0","id":1,''\<close>] p1 p2 nl
  show ?thesis by (simp add: gt st)
qed

section \<open>Session directories are apart\<close>

text \<open>
  C8, as the code has it. In the extension of \<open>src/src\<close> the channel directory is
  \<open>path.join(tmpdir, '.autotester', id)\<close>, where \<open>id\<close> is the sixteen hexadecimal digits
  of the eight bytes that \<open>crypto.randomBytes(8)\<close> gave the session; nothing else of the
  session enters the path, and the code does not look whether the directory is already
  there. Two sessions whose
  random bytes differ have different directories; if they have the same temporary
  directory, no path under one is a path under the other, so they share no request,
  feedback, config or image file. Two sessions with the same temporary directory and the
  same random bytes have the same directory and the same control files. The server a
  session spawns reads back that session's directory from its command line.
\<close>

theorem session_directories_disjoint:
  assumes "length (randomBytes8 a) = 8" and "length (randomBytes8 b) = 8"
  shows "(randomBytes8 a \<noteq> randomBytes8 b \<longrightarrow>
            FEEDBACK_DIR a \<noteq> FEEDBACK_DIR b
          \<and> (tmpdir a = tmpdir b \<longrightarrow>
               (\<forall>r r'. FEEDBACK_DIR a @ ''/'' @ r \<noteq> FEEDBACK_DIR b @ ''/'' @ r')
             \<and> (\<forall>f g. ctl_path a f \<noteq> ctl_path b g)))
       \<and> (randomBytes8 a = randomBytes8 b \<and> tmpdir a = tmpdir b \<longrightarrow>
            FEEDBACK_DIR a = FEEDBACK_DIR b \<and> (\<forall>f. ctl_path a f = ctl_path b f))
       \<and> getFeedbackDir (server_argv mcpServerPath (FEEDBACK_DIR a)) (tmpdir a) = FEEDBACK_DIR a"
proof (intro conjI impI)
  from FEEDBACK_DIR_eq obtain base where
    base: "\<forall>se. length (randomBytes8 se) = 8 \<longrightarrow> FEEDBACK_DIR se = base (tmpdir se) @ INSTANCE_ID se"
    by blast
  have da: "FEEDBACK_DIR a = base (tmpdir a) @ INSTANCE_ID a"
    and db: "FEEDBACK_DIR b = base (tmpdir b) @ INSTANCE_ID b"
    using base assms by simp_all
  have len: "length (INSTANCE_ID a) = length (INSTANCE_ID b)"
    using assms(1,2) by (simp add: INSTANCE_ID_def length_toString_hex)
  have "FEEDBACK_DIR a \<noteq> []"
    using da INSTANCE_ID_plain [OF assms(1)] by simp
  then show "getFeedbackDir (server_argv mcpServerPath (FEEDBACK_DIR a)) (tmpdir a) = FEEDBACK_DIR a"
    by (simp add: getFeedbackDir_def server_argv_def)
  {
    assume "randomBytes8 a = randomBytes8 b \<and> tmpdir a = tmpdir b"
    then show "FEEDBACK_DIR a = FEEDBACK_DIR b" and "\<forall>f. ctl_path a f = ctl_path b f"
      by (simp_all add: FEEDBACK_DIR_def INSTANCE_ID_def ctl_path_def)
  }
  assume differ: "randomBytes8 a \<noteq> randomBytes8 b"
  have ne: "INSTANCE_ID a \<noteq> INSTANCE_ID b"
    using differ toString_hex_inj by (auto simp: INSTANCE_ID_def)
  show "FEEDBACK_DIR a \<noteq> FEEDBACK_DIR b"
    unfolding da db using len ne by simp
  assume same: "tmpdir a = tmpdir b"
  show under: "\<forall>r r'. FEEDBACK_DIR a @ ''/'' @ r \<noteq> FEEDBACK_DIR b @ ''/'' @ r'"
  proof (intro allI notI)
    fix r r'
    assume "FEEDBACK_DIR a @ ''/'' @ r = FEEDBACK_DIR b @ ''/'' @ r'"
    then have "INSTANCE_ID a @ (''/'' @ r) = INSTANCE_ID b @ (''/'' @ r')"
      by (simp add: da db same)
    with len have "INSTANCE_ID a = INSTANCE_ID b" by (metis append_eq_append_conv)
    with ne show False by simp
  qed
  show "\<forall>f g. ctl_path a f \<noteq> ctl_path b g"
    using under by (simp add: ctl_path_eq assms)
qed

theorem session_directories_disjoint_witness:
  "FEEDBACK_DIR (\<lparr>tmpdir = ''/tmp'', homedir = ''/home/dev'', randomBytes8 = [0x0a, 0x1b, 0x2c, 0x3d, 0x4e, 0x5f, 0x60, 0x71], pid = 4001\<rparr>) = ''/tmp/.autotester/0a1b2c3d4e5f6071''
   \<and> FEEDBACK_DIR (\<lparr>tmpdir = ''/tmp'', homedir = ''/home/dev'', randomBytes8 = [0x0a, 0x1b, 0x2c, 0x3d, 0x4e, 0x5f, 0x60, 0x72], pid = 4002\<rparr>) = ''/tmp/.autotester/0a1b2c3d4e5f6072''
   \<and> FEEDBACK_DIR (\<lparr>tmpdir = ''/tmp'', homedir = ''/home/dev'', randomBytes8 = [0x0a, 0x1b, 0x2c, 0x3d, 0x4e, 0x5f, 0x60, 0x71], pid = 4001\<rparr>) \<noteq> FEEDBACK_DIR (\<lparr>tmpdir = ''/tmp'', homedir = ''/home/dev'', randomBytes8 = [0x0a, 0x1b, 0x2c, 0x3d, 0x4e, 0x5f, 0x60, 0x72], pid = 4002\<rparr>)
   \<and> ctl_path (\<lparr>tmpdir = ''/tmp'', homedir = ''/home/dev'', randomBytes8 = [0x0a, 0x1b, 0x2c, 0x3d, 0x4e, 0x5f, 0x60, 0x71], pid = 4001\<rparr>) FEEDBACK_FILE \<noteq> ctl_path (\<lparr>tmpdir = ''/tmp'', homedir = ''/home/dev'', randomBytes8 = [0x0a, 0x1b, 0x2c, 0x3d, 0x4e, 0x5f, 0x60, 0x72], pid = 4002\<rparr>) FEEDBACK_FILE
   \<and> getFeedbackDir (server_argv ''/ext/out/mcp-server.js'' (FEEDBACK_DIR (\<lparr>tmpdir = ''/tmp'', homedir = ''/home/dev'', randomBytes8 = [0x0a, 0x1b, 0x2c, 0x3d, 0x4e, 0x5f, 0x60, 0x71], pid = 4001\<rparr>))) ''/tmp''
       = FEEDBACK_DIR (\<lparr>tmpdir = ''/tmp'', homedir = ''/home/dev'', randomBytes8 = [0x0a, 0x1b, 0x2c, 0x3d, 0x4e, 0x5f, 0x60, 0x71], pid = 4001\<rparr>)"
proof -
  let ?a = "(\<lparr>tmpdir = ''/tmp'', homedir = ''/home/dev'', randomBytes8 = [0x0a, 0x1b, 0x2c, 0x3d, 0x4e, 0x5f, 0x60, 0x71], pid = 4001\<rparr>)"
  let ?b = "(\<lparr>tmpdir = ''/tmp'', homedir = ''/home/dev'', randomBytes8 = [0x0a, 0x1b, 0x2c, 0x3d, 0x4e, 0x5f, 0x60, 0x72], pid = 4002\<rparr>)"
  have da: "FEEDBACK_DIR ?a = ''/tmp/.autotester/0a1b2c3d4e5f6071''" by code_simp
  have db: "FEEDBACK_DIR ?b = ''/tmp/.autotester/0a1b2c3d4e5f6072''" by code_simp
  have l: "length (randomBytes8 ?a) = 8" "length (randomBytes8 ?b) = 8" by simp_all
  have n: "randomBytes8 ?a \<noteq> randomBytes8 ?b" by simp
  from session_directories_disjoint [OF l, of "''/ext/out/mcp-server.js''"] n
  have "FEEDBACK_DIR ?a \<noteq> FEEDBACK_DIR ?b"
    and "ctl_path ?a FEEDBACK_FILE \<noteq> ctl_path ?b FEEDBACK_FILE"
    and "getFeedbackDir (server_argv ''/ext/out/mcp-server.js'' (FEEDBACK_DIR ?a)) ''/tmp'' = FEEDBACK_DIR ?a"
    by simp_all
  with da db show ?thesis by blast
qed

text \<open>
  C8 as stated fails in two ways. Nothing makes the identifier of \<open>src/src\<close> unique: two
  sessions, two processes running at the same time, to which \<open>crypto.randomBytes(8)\<close>
  gives the same eight bytes have the same channel directory and the same control files.
  And in the \<open>copilot-autotester\<close> copy of the extension the channel directory is
  \<open>homedir/.autotester\<close> for every session, so that any two sessions running at the same
  time for the same user have the same request and feedback files.
\<close>

theorem sessions_share_directory:
  "pid (\<lparr>tmpdir = ''/tmp'', homedir = ''/home/dev'', randomBytes8 = [0x0a, 0x1b, 0x2c, 0x3d, 0x4e, 0x5f, 0x60, 0x71], pid = 4001\<rparr>) \<noteq> pid (\<lparr>tmpdir = ''/tmp'', homedir = ''/home/dev'', randomBytes8 = [0x0a, 0x1b, 0x2c, 0x3d, 0x4e, 0x5f, 0x60, 0x71], pid = 4002\<rparr>)
   \<and> FEEDBACK_DIR (\<lparr>tmpdir = ''/tmp'', homedir = ''/home/dev'', randomBytes8 = [0x0a, 0x1b, 0x2c, 0x3d, 0x4e, 0x5f, 0x60, 0x71], pid = 4001\<rparr>) = ''/tmp/.autotester/0a1b2c3d4e5f6071''
   \<and> FEEDBACK_DIR (\<lparr>tmpdir = ''/tmp'', homedir = ''/home/dev'', randomBytes8 = [0x0a, 0x1b, 0x2c, 0x3d, 0x4e, 0x5f, 0x60, 0x71], pid = 4002\<rparr>) = ''/tmp/.autotester/0a1b2c3d4e5f6071''
   \<and> ctl_path (\<lparr>tmpdir = ''/tmp'', homedir = ''/home/dev'', randomBytes8 = [0x0a, 0x1b, 0x2c, 0x3d, 0x4e, 0x5f, 0x60, 0x71], pid = 4001\<rparr>) REQUEST_FILE = ctl_path (\<lparr>tmpdir = ''/tmp'', homedir = ''/home/dev'', randomBytes8 = [0x0a, 0x1b, 0x2c, 0x3d, 0x4e, 0x5f, 0x60, 0x71], pid = 4002\<rparr>) REQUEST_FILE
   \<and> ctl_path (\<lparr>tmpdir = ''/tmp'', homedir = ''/home/dev'', randomBytes8 = [0x0a, 0x1b, 0x2c, 0x3d, 0x4e, 0x5f, 0x60, 0x71], pid = 4001\<rparr>) FEEDBACK_FILE = ctl_path (\<lparr>tmpdir = ''/tmp'', homedir = ''/home/dev'', randomBytes8 = [0x0a, 0x1b, 0x2c, 0x3d, 0x4e, 0x5f, 0x60, 0x71], pid = 4002\<rparr>) FEEDBACK_FILE
   \<and> pid (\<lparr>tmpdir = ''/tmp'', homedir = ''/home/dev'', randomBytes8 = [0x0a, 0x1b, 0x2c, 0x3d, 0x4e, 0x5f, 0x60, 0x71], pid = 4001\<rparr>) \<noteq> pid (\<lparr>tmpdir = ''/tmp'', homedir = ''/home/dev'', randomBytes8 = [0x0a, 0x1b, 0x2c, 0x3d, 0x4e, 0x5f, 0x60, 0x72], pid = 4002\<rparr>)
   \<and> ca_FEEDBACK_DIR (\<lparr>tmpdir = ''/tmp'', homedir = ''/home/dev'', randomBytes8 = [0x0a, 0x1b, 0x2c, 0x3d, 0x4e, 0x5f, 0x60, 0x71], pid = 4001\<rparr>) = ''/home/dev/.autotester''
   \<and> ca_FEEDBACK_DIR (\<lparr>tmpdir = ''/tmp'', homedir = ''/home/dev'', randomBytes8 = [0x0a, 0x1b, 0x2c, 0x3d, 0x4e, 0x5f, 0x60, 0x72], pid = 4002\<rparr>) = ''/home/dev/.autotester''
   \<and> ca_ctl_path (\<lparr>tmpdir = ''/tmp'', homedir = ''/home/dev'', randomBytes8 = [0x0a, 0x1b, 0x2c, 0x3d, 0x4e, 0x5f, 0x60, 0x71], pid = 4001\<rparr>) REQUEST_FILE = ca_ctl_path (\<lparr>tmpdir = ''/tmp'', homedir = ''/home/dev'', randomBytes8 = [0x0a, 0x1b, 0x2c, 0x3d, 0x4e, 0x5f, 0x60, 0x72], pid = 4002\<rparr>) REQUEST_FILE
   \<and> ca_ctl_path (\<lparr>tmpdir = ''/tmp'', homedir = ''/home/dev'', randomBytes8 = [0x0a, 0x1b, 0x2c, 0x3d, 0x4e, 0x5f, 0x60, 0x71], pid = 4001\<rparr>) FEEDBACK_FILE = ca_ctl_path (\<lparr>tmpdir = ''/tmp'', homedir = ''/home/dev'', randomBytes8 = [0x0a, 0x1b, 0x2c, 0x3d, 0x4e, 0x5f, 0x60, 0x72], pid = 4002\<rparr>) FEEDBACK_FILE"
proof -
  let ?a = "(\<lparr>tmpdir = ''/tmp'', homedir = ''/home/dev'', randomBytes8 = [0x0a, 0x1b, 0x2c, 0x3d, 0x4e, 0x5f, 0x60, 0x71], pid = 4001\<rparr>)"
  let ?c = "(\<lparr>tmpdir = ''/tmp'', homedir = ''/home/dev'', randomBytes8 = [0x0a, 0x1b, 0x2c, 0x3d, 0x4e, 0x5f, 0x60, 0x71], pid = 4002\<rparr>)"
  let ?b = "(\<lparr>tmpdir = ''/tmp'', homedir = ''/home/dev'', randomBytes8 = [0x0a, 0x1b, 0x2c, 0x3d, 0x4e, 0x5f, 0x60, 0x72], pid = 4002\<rparr>)"
  have da: "FEEDBACK_DIR ?a = ''/tmp/.autotester/0a1b2c3d4e5f6071''" by code_simp
  have dc: "FEEDBACK_DIR ?c = ''/tmp/.autotester/0a1b2c3d4e5f6071''" by code_simp
  have ca: "ca_FEEDBACK_DIR ?a = ''/home/dev/.autotester''" "ca_FEEDBACK_DIR ?b = ''/home/dev/.autotester''"
    by code_simp+
  have "ctl_path ?a REQUEST_FILE = ctl_path ?c REQUEST_FILE"
    "ctl_path ?a FEEDBACK_FILE = ctl_path ?c FEEDBACK_FILE"
    by (simp_all add: ctl_path_def da dc)
  moreover have "ca_ctl_path ?a REQUEST_FILE = ca_ctl_path ?b REQUEST_FILE"
    "ca_ctl_path ?a FEEDBACK_FILE = ca_ctl_path ?b FEEDBACK_FILE"
    by (simp_all add: ca_ctl_path_def ca)
  moreover have "pid ?a \<noteq> pid ?c" "pid ?a \<noteq> pid ?b" by simp_all
  ultimately show ?thesis using da dc ca by blast
qed
end
